theory Spec2Isabelle
  imports Main
begin

section \<open>Arrays and the numpy primitives the operations call\<close>

text \<open>
  The exceptions that can leave the transformation operations. \<open>ValueError\<close>,
  \<open>IndexError\<close> and \<open>TypeError\<close> are the Python built-ins (raised by the code
  itself or by numpy); \<open>ShapeError\<close> is the error kind the specification names.
\<close>

datatype py_error = ValueError | IndexError | TypeError | ShapeError

text \<open>
  A numpy array: its shape (a tuple of non-negative integers) and its elements in
  row-major (C) order. Elements range over an additive monoid with a one; rounding of
  machine floats is not part of the model.
\<close>

datatype 'a ndarray = NDArray (ashape: "nat list") (flat: "'a list")

definition wf_array :: "'a ndarray \<Rightarrow> bool" where
  "wf_array a = (length (flat a) = prod_list (ashape a))"

definition np_zeros :: "nat list \<Rightarrow> ('a::zero) ndarray" where
  "np_zeros s = NDArray s (replicate (prod_list s) 0)"

definition np_ones :: "nat list \<Rightarrow> ('a::one) ndarray" where
  "np_ones s = NDArray s (replicate (prod_list s) 1)"

text \<open>\<open>a.reshape(newshape)\<close>: same elements in the same order; numpy raises
  \<open>ValueError\<close> when the element counts differ.\<close>

definition reshape :: "'a ndarray \<Rightarrow> nat list \<Rightarrow> py_error + 'a ndarray" where
  "reshape a newshape =
     (if prod_list newshape = length (flat a) then Inr (NDArray newshape (flat a))
      else Inl ValueError)"


subsection \<open>Broadcasting and in-place addition\<close>

text \<open>
  Broadcasting the row-major elements of an array of shape \<open>src\<close> to shape \<open>tgt\<close>
  (both of the same rank, every source dimension equal to the target's or \<open>1\<close>):
  an equal dimension is traversed block by block, a dimension of size one is repeated.
\<close>

fun broadcast_flat :: "nat list \<Rightarrow> nat list \<Rightarrow> 'a list \<Rightarrow> 'a list" where
  "broadcast_flat (s # ss) (t # ts) xs =
     (if s = t then
        concat (map (\<lambda>i. broadcast_flat ss ts (take (prod_list ss) (drop (i * prod_list ss) xs)))
                  [0..<s])
      else concat (replicate t (broadcast_flat ss ts xs)))"
| "broadcast_flat _ _ xs = xs"

text \<open>numpy's broadcasting rule: shapes are aligned at the right, missing leading
  dimensions count as \<open>1\<close>; an incompatible shape is a \<open>ValueError\<close>.\<close>

definition broadcast_to :: "'a ndarray \<Rightarrow> nat list \<Rightarrow> py_error + 'a ndarray" where
  "broadcast_to a target =
     (if length (ashape a) > length target then Inl ValueError
      else
        (let padded = replicate (length target - length (ashape a)) 1 @ ashape a in
         if list_all2 (\<lambda>s t. s = t \<or> s = 1) padded target
         then Inr (NDArray target (broadcast_flat padded target (flat a)))
         else Inl ValueError))"

text \<open>\<open>acc += g\<close> on arrays: \<open>g\<close> is broadcast to the shape of \<open>acc\<close>, which keeps
  its shape.\<close>

definition iadd :: "('a::plus) ndarray \<Rightarrow> 'a ndarray \<Rightarrow> py_error + 'a ndarray" where
  "iadd acc g =
     (case broadcast_to g (ashape acc) of
        Inl e \<Rightarrow> Inl e
      | Inr g' \<Rightarrow> Inr (NDArray (ashape acc) (map2 (+) (flat acc) (flat g'))))"

subsection \<open>Index expressions\<close>

text \<open>
  The items of a \<open>numpy.index_exp\<close> tuple: an integer, a slice \<open>start:stop:step\<close> (each
  part optional), \<open>Ellipsis\<close>, \<open>numpy.newaxis\<close>, and a one-dimensional sequence of
  integers (an index array, as in \<open>numpy.index_exp[[0, 0], :]\<close>), which may name a
  position more than once.
\<close>

datatype index_item =
    Index int
  | Slice "int option" "int option" "int option"
  | Ellipsis
  | NewAxis
  | IntArray "int list"

text \<open>Python's \<open>slice.indices\<close>: the positions a slice selects in a dimension of
  length \<open>d\<close>. A step of zero is a \<open>ValueError\<close>.\<close>

definition slice_adjust :: "int \<Rightarrow> int \<Rightarrow> int \<Rightarrow> int" where
  "slice_adjust n step v =
     (if v < 0 then (if v + n < 0 then (if step < 0 then - 1 else 0) else v + n)
      else if v \<ge> n then (if step < 0 then n - 1 else n)
      else v)"

definition slice_positions ::
  "int option \<Rightarrow> int option \<Rightarrow> int option \<Rightarrow> nat \<Rightarrow> py_error + nat list"
where
  "slice_positions start stop step d =
     (let st = (case step of None \<Rightarrow> 1 | Some s \<Rightarrow> s); n = int d in
      if st = 0 then Inl ValueError
      else
        (let lo = (case start of
                     None \<Rightarrow> (if st < 0 then n - 1 else 0)
                   | Some v \<Rightarrow> slice_adjust n st v);
             hi = (case stop of
                     None \<Rightarrow> (if st < 0 then - 1 else n)
                   | Some v \<Rightarrow> slice_adjust n st v);
             len = (if st < 0 then (if hi < lo then (lo - hi - 1) div (- st) + 1 else 0)
                    else (if lo < hi then (hi - lo - 1) div st + 1 else 0))
         in Inr (map (\<lambda>k. nat (lo + int k * st)) [0..<nat len])))"

text \<open>An integer index in a dimension of length \<open>d\<close>: negative values count from the
  end, a value out of bounds is an \<open>IndexError\<close>. An index array is checked element by
  element.\<close>

definition normalise :: "int \<Rightarrow> nat \<Rightarrow> py_error + nat" where
  "normalise i d =
     (if - int d \<le> i \<and> i < int d then Inr (nat (if i < 0 then i + int d else i))
      else Inl IndexError)"

fun normalise_all :: "int list \<Rightarrow> nat \<Rightarrow> py_error + nat list" where
  "normalise_all [] d = Inr []"
| "normalise_all (i # is) d =
     (case normalise i d of
        Inl e \<Rightarrow> Inl e
      | Inr p \<Rightarrow> (case normalise_all is d of Inl e \<Rightarrow> Inl e | Inr ps \<Rightarrow> Inr (p # ps)))"

definition consumes_axis :: "index_item \<Rightarrow> bool" where
  "consumes_axis item =
     (case item of Index _ \<Rightarrow> True | Slice _ _ _ \<Rightarrow> True | IntArray _ \<Rightarrow> True | _ \<Rightarrow> False)"

text \<open>Integers and index arrays are the advanced items once an index array is present.\<close>

definition is_advanced :: "index_item \<Rightarrow> bool" where
  "is_advanced item = (case item of Index _ \<Rightarrow> True | IntArray _ \<Rightarrow> True | _ \<Rightarrow> False)"

definition is_array :: "index_item \<Rightarrow> bool" where
  "is_array item = (case item of IntArray _ \<Rightarrow> True | _ \<Rightarrow> False)"

definition zero_step :: "index_item \<Rightarrow> bool" where
  "zero_step item = (case item of Slice _ _ (Some st) \<Rightarrow> st = 0 | _ \<Rightarrow> False)"

text \<open>
  An axis of the selection lists what each of its positions adds to the row-major offset
  of the selected element. \<open>Kept\<close> axes come from slices, \<open>newaxis\<close> and the dimensions
  taken whole; \<open>Pick\<close> axes come from integers and index arrays.
\<close>

datatype axis = Kept "nat list" | Pick "nat list"

fun contribs :: "axis \<Rightarrow> nat list" where
  "contribs (Kept ps) = ps"
| "contribs (Pick ps) = ps"

fun is_pick :: "axis \<Rightarrow> bool" where
  "is_pick (Kept ps) = False"
| "is_pick (Pick ps) = True"

text \<open>The dimensions \<open>dims\<close> taken whole.\<close>

fun full_axes :: "nat list \<Rightarrow> axis list" where
  "full_axes [] = []"
| "full_axes (d # ds) = Kept (map (\<lambda>p. p * prod_list ds) [0..<d]) # full_axes ds"

text \<open>
  The axes of an index expression in an array of dimensions \<open>dims\<close>. Dimensions not
  addressed are taken whole, at the end or where the \<open>Ellipsis\<close> stands. Items are
  examined from the left, so the leftmost offending item decides the error.
\<close>

fun index_axes :: "index_item list \<Rightarrow> nat list \<Rightarrow> py_error + axis list" where
  "index_axes [] dims = Inr (full_axes dims)"
| "index_axes (NewAxis # items) dims =
     (case index_axes items dims of
        Inl e \<Rightarrow> Inl e
      | Inr axes \<Rightarrow> Inr (Kept [0] # axes))"
| "index_axes (Ellipsis # items) dims =
     (let k = length dims - length (filter consumes_axis items) in
      case index_axes items (drop k dims) of
        Inl e \<Rightarrow> Inl e
      | Inr axes \<Rightarrow> Inr (take k (full_axes dims) @ axes))"
| "index_axes (Index i # items) (d # ds) =
     (case normalise i d of
        Inl e \<Rightarrow> Inl e
      | Inr p \<Rightarrow>
          (case index_axes items ds of
             Inl e \<Rightarrow> Inl e
           | Inr axes \<Rightarrow> Inr (Pick [p * prod_list ds] # axes)))"
| "index_axes (IntArray is # items) (d # ds) =
     (case normalise_all is d of
        Inl e \<Rightarrow> Inl e
      | Inr ps \<Rightarrow>
          (case index_axes items ds of
             Inl e \<Rightarrow> Inl e
           | Inr axes \<Rightarrow> Inr (Pick (map (\<lambda>p. p * prod_list ds) ps) # axes)))"
| "index_axes (Slice start stop step # items) (d # ds) =
     (case slice_positions start stop step d of
        Inl e \<Rightarrow> Inl e
      | Inr ps \<Rightarrow>
          (case index_axes items ds of
             Inl e \<Rightarrow> Inl e
           | Inr axes \<Rightarrow> Inr (Kept (map (\<lambda>p. p * prod_list ds) ps) # axes)))"
| "index_axes (_ # items) [] = Inl IndexError"

text \<open>The offsets of the elements of a selection with the given axes, in row-major
  order: one contribution of every axis, the last axis varying fastest.\<close>

fun cart :: "nat list list \<Rightarrow> nat list" where
  "cart [] = [0]"
| "cart (ax # axes) = concat (map (\<lambda>a. map (\<lambda>off. a + off) (cart axes)) ax)"

text \<open>
  Index arrays and integers are broadcast together and traversed jointly: their common
  length is the one length that is not \<open>1\<close> (two different ones are an \<open>IndexError\<close>),
  and position \<open>b\<close> of the joint axis adds up position \<open>b\<close> of every one of them.
\<close>

definition joint_length :: "nat list list \<Rightarrow> py_error + nat" where
  "joint_length picks =
     (case filter (\<lambda>l. l \<noteq> 1) (map length picks) of
        [] \<Rightarrow> Inr 1
      | l # ls \<Rightarrow> if list_all (\<lambda>m. m = l) ls then Inr l else Inl IndexError)"

definition joint_offsets :: "nat list list \<Rightarrow> nat \<Rightarrow> nat list" where
  "joint_offsets picks len =
     map (\<lambda>b. sum_list (map (\<lambda>ps. if length ps = 1 then ps ! 0 else ps ! b) picks)) [0..<len]"

text \<open>The advanced items stand next to each other when no slice, \<open>newaxis\<close> or
  \<open>Ellipsis\<close> stands between the first and the last of them.\<close>

definition advanced_consecutive :: "index_item list \<Rightarrow> bool" where
  "advanced_consecutive idx =
     list_all is_advanced
       (dropWhile (\<lambda>item. \<not> is_advanced item)
          (rev (dropWhile (\<lambda>item. \<not> is_advanced item) (rev idx))))"

text \<open>
  The selection of an index expression: the shape of the result and the row-major offsets
  of its elements, in the order of the result. Without an index array (basic indexing)
  an integer removes its dimension. With one, the joint axis of the advanced items takes
  the place of the first of them when they stand next to each other, and comes first
  otherwise.
\<close>

definition select :: "index_item list \<Rightarrow> nat list \<Rightarrow> py_error + (nat list \<times> nat list)" where
  "select idx dims =
     (case index_axes idx dims of
        Inl e \<Rightarrow> Inl e
      | Inr axes \<Rightarrow>
          if \<not> list_ex is_array idx then
            Inr (map length (map contribs (filter (\<lambda>ax. \<not> is_pick ax) axes)),
                 cart (map contribs axes))
          else
            (case joint_length (map contribs (filter is_pick axes)) of
               Inl e \<Rightarrow> Inl e
             | Inr len \<Rightarrow>
                 (let joint = joint_offsets (map contribs (filter is_pick axes)) len;
                      before = map contribs (takeWhile (\<lambda>ax. \<not> is_pick ax) axes);
                      after = map contribs (filter (\<lambda>ax. \<not> is_pick ax)
                                (dropWhile (\<lambda>ax. \<not> is_pick ax) axes));
                      res = (if advanced_consecutive idx then before @ [joint] @ after
                             else joint # before @ after)
                  in Inr (map length res, cart res))))"

text \<open>
  numpy first counts the items: a second \<open>Ellipsis\<close>, or more integers, slices and index
  arrays than the array has dimensions, is an \<open>IndexError\<close>. With an index array present
  the slices are taken before the index arrays are examined, so a slice step of zero is
  reported first.
\<close>

definition index_positions :: "nat list \<Rightarrow> index_item list \<Rightarrow> py_error + (nat list \<times> nat list)" where
  "index_positions dims idx =
     (if length (filter (\<lambda>item. item = Ellipsis) idx) > 1 then Inl IndexError
      else if length (filter consumes_axis idx) > length dims then Inl IndexError
      else if list_ex is_array idx \<and> list_ex zero_step idx then Inl ValueError
      else select idx dims)"

text \<open>\<open>a[idx]\<close>: the selected elements, in the selection's shape.\<close>

definition getitem :: "'a ndarray \<Rightarrow> index_item list \<Rightarrow> py_error + 'a ndarray" where
  "getitem a idx =
     (case index_positions (ashape a) idx of
        Inl e \<Rightarrow> Inl e
      | Inr (sh, offs) \<Rightarrow> Inr (NDArray sh (map (\<lambda>p. flat a ! p) offs)))"

text \<open>Assignment strips surplus leading dimensions of size one from the value before
  broadcasting it to the selection.\<close>

fun strip_leading_ones :: "nat \<Rightarrow> nat list \<Rightarrow> nat list" where
  "strip_leading_ones n [] = []"
| "strip_leading_ones n (d # ds) =
     (if length (d # ds) > n \<and> d = 1 then strip_leading_ones n ds else d # ds)"

definition scatter :: "nat list \<Rightarrow> 'a list \<Rightarrow> 'a list \<Rightarrow> 'a list" where
  "scatter offs vs xs = fold (\<lambda>(p, v) ys. ys[p := v]) (zip offs vs) xs"

text \<open>\<open>a[idx] = v\<close>: the array with the selected elements replaced by those of \<open>v\<close>,
  written in the order of the selection; where the index expression names a position
  more than once, the later element stays.\<close>

definition setitem :: "'a ndarray \<Rightarrow> index_item list \<Rightarrow> 'a ndarray \<Rightarrow> py_error + 'a ndarray" where
  "setitem a idx v =
     (case index_positions (ashape a) idx of
        Inl e \<Rightarrow> Inl e
      | Inr (sh, offs) \<Rightarrow>
          (case broadcast_to (NDArray (strip_leading_ones (length sh) (ashape v)) (flat v)) sh of
             Inl e \<Rightarrow> Inl e
           | Inr v' \<Rightarrow> Inr (NDArray (ashape a) (scatter offs (flat v') (flat a)))))"

section \<open>Operation nodes\<close>

text \<open>
  What this module reads of a node: its \<open>shape\<close> and its cached \<open>result\<close>.
  An operation is a node with an input node \<open>inputA\<close>, the \<open>endNode\<close> flag and the
  consumers \<open>outputs\<close> (in iteration order). A shape not yet assigned is \<open>[]\<close>.
\<close>

record 'a node =
  shape :: "nat list"
  result :: "'a ndarray option"

record ('a, 'c) operation = "'a node" +
  inputA :: "'a node"
  endNode :: bool
  outputs :: "'c list"

record ('a, 'c) features_operation = "('a, 'c) operation" +
  nExamples :: nat

subsection \<open>FlattenFeaturesOperation\<close>

text \<open>The loop \<open>for index in range(inpShapeSize - 1): numFeatures *= shape[index + 1]\<close>.\<close>

definition numFeatures_loop :: "nat list \<Rightarrow> nat" where
  "numFeatures_loop inpShape =
     foldl (\<lambda>numFeatures index. numFeatures * inpShape ! (index + 1)) 1
       [0..<length inpShape - 1]"

definition FlattenFeaturesOperation_setShape ::
  "('a, 'c, 'z) features_operation_scheme \<Rightarrow> py_error + ('a, 'c, 'z) features_operation_scheme"
where
  "FlattenFeaturesOperation_setShape self =
     (let inpShapeSize = length (shape (inputA self)) in
      if inpShapeSize \<ge> 2 then
        Inr (self\<lparr>nExamples := shape (inputA self) ! 0,
                  shape := [shape (inputA self) ! 0, numFeatures_loop (shape (inputA self))]\<rparr>)
      else
        (case shape (inputA self) of
           [] \<Rightarrow> Inl IndexError
         | d # _ \<Rightarrow> Inr (self\<lparr>nExamples := 1, shape := [1, d]\<rparr>)))"

definition FlattenFeaturesOperation_perform ::
  "('a, 'c, 'z) features_operation_scheme \<Rightarrow> 'a ndarray \<Rightarrow> py_error + 'a ndarray"
where
  "FlattenFeaturesOperation_perform self a = reshape a (shape self)"


text \<open>The accumulation loop of \<open>performGradient\<close>:
  \<open>for out in self.outputs: grad += out.getGradient(self).reshape(self.inputA.shape)\<close>.
  The consumers live outside this module; \<open>getGradient\<close> is what a consumer answers.\<close>

fun FlattenFeaturesOperation_gradLoop ::
  "('c \<Rightarrow> py_error + 'a ndarray) \<Rightarrow> nat list \<Rightarrow> 'c list \<Rightarrow> ('a::plus) ndarray
   \<Rightarrow> py_error + 'a ndarray"
where
  "FlattenFeaturesOperation_gradLoop getGradient inpShape [] grad = Inr grad"
| "FlattenFeaturesOperation_gradLoop getGradient inpShape (out # outs) grad =
     (case getGradient out of
        Inl e \<Rightarrow> Inl e
      | Inr g \<Rightarrow>
          (case reshape g inpShape of
             Inl e \<Rightarrow> Inl e
           | Inr r \<Rightarrow>
               (case iadd grad r of
                  Inl e \<Rightarrow> Inl e
                | Inr grad' \<Rightarrow> FlattenFeaturesOperation_gradLoop getGradient inpShape outs grad')))"

definition FlattenFeaturesOperation_performGradient ::
  "('c \<Rightarrow> py_error + 'a ndarray) \<Rightarrow> ('a::{monoid_add, one}, 'c, 'z) features_operation_scheme
   \<Rightarrow> py_error + 'a ndarray"
where
  "FlattenFeaturesOperation_performGradient getGradient self =
     (if endNode self then Inr (np_ones (shape (inputA self)))
      else FlattenFeaturesOperation_gradLoop getGradient (shape (inputA self)) (outputs self)
             (np_zeros (shape (inputA self))))"

subsection \<open>ReshapeFeaturesOperation\<close>

text \<open>The constructor argument \<open>exampleShape\<close>: a tuple of dimensions, or the integer
  the default \<open>exampleShape=0\<close> passes.\<close>

datatype py_value = PyInt int | PyTuple "nat list"

record ('a, 'c) ReshapeFeaturesOperation = "('a, 'c) features_operation" +
  exampleShape :: py_value

text \<open>Tuple concatenation \<open>t + v\<close>; a non-tuple right operand is a \<open>TypeError\<close>.\<close>

definition tuple_add :: "nat list \<Rightarrow> py_value \<Rightarrow> py_error + nat list" where
  "tuple_add t v = (case v of PyTuple u \<Rightarrow> Inr (t @ u) | PyInt _ \<Rightarrow> Inl TypeError)"

definition ReshapeFeaturesOperation_setShape ::
  "('a, 'c, 'z) ReshapeFeaturesOperation_scheme
   \<Rightarrow> py_error + ('a, 'c, 'z) ReshapeFeaturesOperation_scheme"
where
  "ReshapeFeaturesOperation_setShape self =
     (let inpShapeSize = length (shape (inputA self)) in
      if inpShapeSize \<ge> 2 then
        (case tuple_add [shape (inputA self) ! 0] (exampleShape self) of
           Inl e \<Rightarrow> Inl e
         | Inr s \<Rightarrow> Inr (self\<lparr>nExamples := shape (inputA self) ! 0, shape := s\<rparr>))
      else
        (case tuple_add [1] (exampleShape self) of
           Inl e \<Rightarrow> Inl e
         | Inr s \<Rightarrow> Inr (self\<lparr>nExamples := 1, shape := s\<rparr>)))"

definition ReshapeFeaturesOperation_perform ::
  "('a, 'c, 'z) ReshapeFeaturesOperation_scheme \<Rightarrow> 'a ndarray \<Rightarrow> py_error + 'a ndarray"
where
  "ReshapeFeaturesOperation_perform self a = reshape a (shape self)"

fun ReshapeFeaturesOperation_gradLoop ::
  "('c \<Rightarrow> py_error + 'a ndarray) \<Rightarrow> nat list \<Rightarrow> 'c list \<Rightarrow> ('a::plus) ndarray
   \<Rightarrow> py_error + 'a ndarray"
where
  "ReshapeFeaturesOperation_gradLoop getGradient inpShape [] grad = Inr grad"
| "ReshapeFeaturesOperation_gradLoop getGradient inpShape (out # outs) grad =
     (case getGradient out of
        Inl e \<Rightarrow> Inl e
      | Inr g \<Rightarrow>
          (case reshape g inpShape of
             Inl e \<Rightarrow> Inl e
           | Inr r \<Rightarrow>
               (case iadd grad r of
                  Inl e \<Rightarrow> Inl e
                | Inr grad' \<Rightarrow> ReshapeFeaturesOperation_gradLoop getGradient inpShape outs grad')))"

definition ReshapeFeaturesOperation_performGradient ::
  "('c \<Rightarrow> py_error + 'a ndarray) \<Rightarrow> ('a::{monoid_add, one}, 'c, 'z) ReshapeFeaturesOperation_scheme
   \<Rightarrow> py_error + 'a ndarray"
where
  "ReshapeFeaturesOperation_performGradient getGradient self =
     (if endNode self then Inr (np_ones (shape (inputA self)))
      else ReshapeFeaturesOperation_gradLoop getGradient (shape (inputA self)) (outputs self)
             (np_zeros (shape (inputA self))))"

subsection \<open>SliceOperation\<close>

record ('a, 'c) SliceOperation = "('a, 'c) operation" +
  indexExp :: "index_item list"

definition SliceOperation_setShape ::
  "('a::zero, 'c, 'z) SliceOperation_scheme \<Rightarrow> py_error + ('a, 'c, 'z) SliceOperation_scheme"
where
  "SliceOperation_setShape self =
     (let testMat = (np_zeros (shape (inputA self)) :: 'a ndarray) in
      case getitem testMat (indexExp self) of
        Inl e \<Rightarrow> Inl e
      | Inr res \<Rightarrow> Inr (self\<lparr>shape := ashape res\<rparr>))"

definition SliceOperation_perform ::
  "('a, 'c, 'z) SliceOperation_scheme \<Rightarrow> 'a ndarray \<Rightarrow> py_error + 'a ndarray"
where
  "SliceOperation_perform self a = getitem a (indexExp self)"

text \<open>The loop \<open>for out in self.outputs: gradGather += out.getGradient(self)\<close>.\<close>

fun SliceOperation_gradLoop ::
  "('c \<Rightarrow> py_error + 'a ndarray) \<Rightarrow> 'c list \<Rightarrow> ('a::plus) ndarray \<Rightarrow> py_error + 'a ndarray"
where
  "SliceOperation_gradLoop getGradient [] gradGather = Inr gradGather"
| "SliceOperation_gradLoop getGradient (out # outs) gradGather =
     (case getGradient out of
        Inl e \<Rightarrow> Inl e
      | Inr g \<Rightarrow>
          (case iadd gradGather g of
             Inl e \<Rightarrow> Inl e
           | Inr gradGather' \<Rightarrow> SliceOperation_gradLoop getGradient outs gradGather'))"

definition SliceOperation_performGradient ::
  "('c \<Rightarrow> py_error + 'a ndarray) \<Rightarrow> ('a::{monoid_add, one}, 'c, 'z) SliceOperation_scheme
   \<Rightarrow> py_error + 'a ndarray"
where
  "SliceOperation_performGradient getGradient self =
     (if endNode self then Inr (np_ones (shape (inputA self)))
      else
        (case SliceOperation_gradLoop getGradient (outputs self) (np_zeros (shape self)) of
           Inl e \<Rightarrow> Inl e
         | Inr gradGather \<Rightarrow>
             setitem (np_zeros (shape (inputA self))) (indexExp self) gradGather))"

subsection \<open>Construction\<close>

text \<open>
  Modelled from the spec: \<open>SingleInputOperation.__init__\<close> of \<open>coreOperation\<close>, which is
  not among the sources. The specification says that a node holds its input, its
  consumers \<open>outputs\<close> and the \<open>endNode\<close> flag (true while it has no consumers), and that
  \<open>setShape\<close> is called once at construction. The subclass's \<open>setShape\<close> is passed in.
\<close>

definition SingleInputOperation_init ::
  "(('a, 'c, 'z) operation_scheme \<Rightarrow> py_error + ('a, 'c, 'z) operation_scheme)
   \<Rightarrow> ('a, 'c, 'z) operation_scheme \<Rightarrow> 'a node \<Rightarrow> py_error + ('a, 'c, 'z) operation_scheme"
where
  "SingleInputOperation_init setShape self inputA' =
     setShape (self\<lparr>result := None, inputA := inputA', endNode := True, outputs := []\<rparr>)"

text \<open>A new object: the attributes the constructor has not assigned yet are empty.\<close>

definition FlattenFeaturesOperation_init ::
  "'a node \<Rightarrow> py_error + ('a, 'c) features_operation"
where
  "FlattenFeaturesOperation_init inputA' =
     SingleInputOperation_init FlattenFeaturesOperation_setShape
       \<lparr>shape = [], result = None, inputA = inputA', endNode = True, outputs = [],
        nExamples = 0\<rparr> inputA'"

definition ReshapeFeaturesOperation_init ::
  "'a node \<Rightarrow> py_value \<Rightarrow> py_error + ('a, 'c) ReshapeFeaturesOperation"
where
  "ReshapeFeaturesOperation_init inputA' exampleShape' =
     (case SingleInputOperation_init ReshapeFeaturesOperation_setShape
             \<lparr>shape = [], result = None, inputA = inputA', endNode = True, outputs = [],
              nExamples = 0, exampleShape = exampleShape'\<rparr> inputA' of
        Inl e \<Rightarrow> Inl e
      | Inr self \<Rightarrow> ReshapeFeaturesOperation_setShape self)"

definition SliceOperation_init ::
  "'a node \<Rightarrow> index_item list option \<Rightarrow> py_error + ('a::zero, 'c) SliceOperation"
where
  "SliceOperation_init inputA' indexExp' =
     (case indexExp' of
        None \<Rightarrow> Inl ValueError
      | Some ie \<Rightarrow>
          SingleInputOperation_init SliceOperation_setShape
            \<lparr>shape = [], result = None, inputA = inputA', endNode = True, outputs = [],
             indexExp = ie\<rparr> inputA')"

section \<open>Notions the properties are stated with\<close>

text \<open>Elementwise sum of two arrays, and of a list of arrays starting from zeros.\<close>

definition add_arrays :: "('a::plus) ndarray \<Rightarrow> 'a ndarray \<Rightarrow> 'a ndarray" where
  "add_arrays a b = NDArray (ashape a) (map2 (+) (flat a) (flat b))"

definition sum_arrays :: "nat list \<Rightarrow> ('a::monoid_add) ndarray list \<Rightarrow> 'a ndarray" where
  "sum_arrays s arrs = foldl add_arrays (np_zeros s) arrs"

text \<open>The offsets an index expression selects in an array of the given dimensions.\<close>

definition selected_positions :: "nat list \<Rightarrow> index_item list \<Rightarrow> nat list" where
  "selected_positions dims idx =
     (case index_positions dims idx of Inl e \<Rightarrow> [] | Inr (sh, offs) \<Rightarrow> offs)"

text \<open>
  An array \<open>g\<close> of the selection's shape scattered to an array of dimensions \<open>dims\<close>:
  zero everywhere, except that a position the selection names holds the element of \<open>g\<close>
  standing where the selection names it (the last such element, where the position is
  named more than once).
\<close>

definition scattered :: "nat list \<Rightarrow> nat list \<Rightarrow> ('a::zero) ndarray \<Rightarrow> 'a ndarray" where
  "scattered dims offs g =
     NDArray dims
       (map (\<lambda>p. case filter (\<lambda>k. offs ! k = p) [0..<length offs] of
                    [] \<Rightarrow> 0
                  | k # ks \<Rightarrow> flat g ! last (k # ks))
          [0..<prod_list dims])"

text \<open>A \<open>FlattenFeaturesOperation\<close> built on a node holding \<open>a\<close>, then a
  \<open>ReshapeFeaturesOperation\<close> built on it, each performed on the other's result.\<close>

definition flatten_then_reshape :: "'a ndarray \<Rightarrow> py_value \<Rightarrow> py_error + 'a ndarray" where
  "flatten_then_reshape a exampleShape' =
     (case FlattenFeaturesOperation_init \<lparr>shape = ashape a, result = Some a\<rparr> of
        Inl e \<Rightarrow> Inl e
      | Inr (flatten :: ('a, unit) features_operation) \<Rightarrow>
          (case FlattenFeaturesOperation_perform flatten a of
             Inl e \<Rightarrow> Inl e
           | Inr b \<Rightarrow>
               (case ReshapeFeaturesOperation_init \<lparr>shape = shape flatten, result = Some b\<rparr>
                       exampleShape' of
                  Inl e \<Rightarrow> Inl e
                | Inr (reshp :: ('a, unit) ReshapeFeaturesOperation) \<Rightarrow>
                    ReshapeFeaturesOperation_perform reshp b)))"

section \<open>Shape inference of FlattenFeaturesOperation\<close>

lemma numFeatures_loop_acc:
  "foldl (\<lambda>nf index. nf * (x # xs) ! (index + 1)) a [0..<length xs] = (a::nat) * prod_list xs"
proof (induction xs arbitrary: a rule: rev_induct)
  case Nil
  show ?case by simp
next
  case (snoc y ys)
  have "foldl (\<lambda>nf index. nf * (x # ys @ [y]) ! (index + 1)) a [0..<length ys]
        = foldl (\<lambda>nf index. nf * (x # ys) ! (index + 1)) a [0..<length ys]"
    by (rule foldl_cong) (simp_all add: nth_append)
  then show ?case using snoc.IH [of a] by (simp add: nth_append mult.assoc)
qed

lemma numFeatures_loop_prod: "numFeatures_loop (n # ds) = prod_list ds"
  unfolding numFeatures_loop_def using numFeatures_loop_acc [of n ds 1] by simp

text \<open>
  C4. For an input of rank at least two with shape \<open>(n, d1, ..., dk)\<close>, \<open>setShape\<close>
  keeps the leading examples dimension and multiplies the remaining ones:
  the output shape is \<open>(n, d1 * ... * dk)\<close> (and \<open>nExamples\<close> is \<open>n\<close>).
\<close>

theorem Flatten_setShape_rank_ge_2:
  "shape (inputA self) = n # d # ds \<Longrightarrow>
   FlattenFeaturesOperation_setShape self =
     Inr (self\<lparr>nExamples := n, shape := [n, prod_list (d # ds)]\<rparr>)"
  by (simp add: FlattenFeaturesOperation_setShape_def numFeatures_loop_prod)

theorem Flatten_setShape_rank_ge_2_witness:
  "FlattenFeaturesOperation_setShape
     \<lparr>shape = [], result = (None :: int ndarray option),
      inputA = \<lparr>shape = [2, 3, 4], result = None\<rparr>,
      endNode = True, outputs = ([] :: nat list), nExamples = 0\<rparr>
   = Inr \<lparr>shape = [2, 12], result = None,
          inputA = \<lparr>shape = [2, 3, 4], result = None\<rparr>,
          endNode = True, outputs = [], nExamples = 2\<rparr>"
  using Flatten_setShape_rank_ge_2
    [of "\<lparr>shape = [], result = (None :: int ndarray option),
          inputA = \<lparr>shape = [2, 3, 4], result = None\<rparr>,
          endNode = True, outputs = ([] :: nat list), nExamples = 0\<rparr>" 2 3 "[4]"]
  by simp

text \<open>
  C9. For a one-dimensional input of shape \<open>(d,)\<close>, \<open>setShape\<close> sets \<open>nExamples\<close> to
  \<open>1\<close> and the output shape to \<open>(1, d)\<close>: the vector is one example, not \<open>d\<close> examples.
\<close>

theorem Flatten_setShape_rank_1:
  "shape (inputA self) = [d] \<Longrightarrow>
   FlattenFeaturesOperation_setShape self = Inr (self\<lparr>nExamples := 1, shape := [1, d]\<rparr>)"
  by (simp add: FlattenFeaturesOperation_setShape_def)

theorem Flatten_setShape_rank_1_witness:
  "FlattenFeaturesOperation_setShape
     \<lparr>shape = [], result = (None :: int ndarray option),
      inputA = \<lparr>shape = [7], result = None\<rparr>,
      endNode = True, outputs = ([] :: nat list), nExamples = 0\<rparr>
   = Inr \<lparr>shape = [1, 7], result = None,
          inputA = \<lparr>shape = [7], result = None\<rparr>,
          endNode = True, outputs = [], nExamples = 1\<rparr>"
  using Flatten_setShape_rank_1
    [of "\<lparr>shape = [], result = (None :: int ndarray option),
          inputA = \<lparr>shape = [7], result = None\<rparr>,
          endNode = True, outputs = ([] :: nat list), nExamples = 0\<rparr>" 7]
  by simp

section \<open>Broadcasting to the same shape, and the accumulation loops\<close>

lemma concat_chunks:
  "concat (map (\<lambda>i. take k (drop (i * k) xs)) [0..<s]) = take (s * k) xs"
proof (induction s)
  case 0
  show ?case by simp
next
  case (Suc s)
  have "take (s * k) xs @ take k (drop (s * k) xs) = take (s * k + k) xs"
    by (simp add: take_add)
  then show ?case using Suc by (simp add: add.commute)
qed

lemma broadcast_flat_same:
  "length xs = prod_list s \<Longrightarrow> broadcast_flat s s xs = xs"
proof (induction s arbitrary: xs)
  case Nil
  show ?case by simp
next
  case (Cons d ds)
  have chunk: "broadcast_flat ds ds (take (prod_list ds) (drop (i * prod_list ds) xs))
               = take (prod_list ds) (drop (i * prod_list ds) xs)" if "i < d" for i
  proof (rule Cons.IH)
    from that have "i * prod_list ds + prod_list ds \<le> d * prod_list ds"
      by (metis Suc_leI mult_Suc mult_le_mono1 add.commute)
    with Cons.prems show "length (take (prod_list ds) (drop (i * prod_list ds) xs)) = prod_list ds"
      by simp
  qed
  have blocks:
    "map (\<lambda>i. broadcast_flat ds ds (take (prod_list ds) (drop (i * prod_list ds) xs))) [0..<d]
     = map (\<lambda>i. take (prod_list ds) (drop (i * prod_list ds) xs)) [0..<d]"
    by (rule map_cong) (simp_all add: chunk)
  have "broadcast_flat (d # ds) (d # ds) xs
        = concat (map (\<lambda>i. broadcast_flat ds ds
                                 (take (prod_list ds) (drop (i * prod_list ds) xs))) [0..<d])"
    by simp
  also have "\<dots> = concat (map (\<lambda>i. take (prod_list ds) (drop (i * prod_list ds) xs)) [0..<d])"
    by (simp only: blocks)
  also have "\<dots> = take (d * prod_list ds) xs"
    by (rule concat_chunks)
  also have "\<dots> = xs"
    using Cons.prems by simp
  finally show ?case .
qed

lemma broadcast_to_same: "wf_array g \<Longrightarrow> broadcast_to g (ashape g) = Inr g"
  by (simp add: broadcast_to_def wf_array_def broadcast_flat_same list_all2_same)

lemma iadd_same_shape:
  "wf_array g \<Longrightarrow> ashape g = ashape acc \<Longrightarrow> iadd acc g = Inr (add_arrays acc g)"
  using broadcast_to_same [of g] by (simp add: iadd_def add_arrays_def)

lemma reshape_Inr:
  "reshape g s = Inr r \<Longrightarrow> ashape r = s \<and> wf_array r \<and> flat r = flat g"
  by (auto simp: reshape_def wf_array_def split: if_splits)

lemma ashape_add_arrays [simp]: "ashape (add_arrays a b) = ashape a"
  by (simp add: add_arrays_def)

lemma Flatten_gradLoop_sum:
  "list_all2 (\<lambda>out r. \<exists>g. getGradient out = Inr g \<and> reshape g s = Inr r) outs rs \<Longrightarrow>
   ashape acc = s \<Longrightarrow>
   FlattenFeaturesOperation_gradLoop getGradient s outs acc = Inr (foldl add_arrays acc rs)"
proof (induction outs rs arbitrary: acc rule: list_all2_induct)
  case Nil
  show ?case by simp
next
  case (Cons out outs r rs)
  from Cons.hyps(1) obtain g where g: "getGradient out = Inr g" "reshape g s = Inr r"
    by blast
  from reshape_Inr [OF g(2)] Cons.prems have "iadd acc r = Inr (add_arrays acc r)"
    by (simp add: iadd_same_shape)
  with g Cons.IH [of "add_arrays acc r"] Cons.prems show ?case by simp
qed

lemma Reshape_gradLoop_eq:
  "ReshapeFeaturesOperation_gradLoop getGradient s outs acc
   = FlattenFeaturesOperation_gradLoop getGradient s outs acc"
  by (induction outs arbitrary: acc) (simp_all split: sum.splits)

section \<open>Gradient of an end node\<close>

text \<open>
  C5. A transformation operation (Flatten, Reshape, Slice) whose \<open>endNode\<close> flag is set
  returns from \<open>performGradient\<close> an array of ones of the input operation's shape,
  whatever its consumers, index expression or reshape parameters are.
\<close>

theorem performGradient_endNode_ones:
  "endNode f \<Longrightarrow> endNode r \<Longrightarrow> endNode s \<Longrightarrow>
   FlattenFeaturesOperation_performGradient getGradient f
     = Inr (NDArray (shape (inputA f)) (replicate (prod_list (shape (inputA f))) 1)) \<and>
   ReshapeFeaturesOperation_performGradient getGradient' r
     = Inr (NDArray (shape (inputA r)) (replicate (prod_list (shape (inputA r))) 1)) \<and>
   SliceOperation_performGradient getGradient'' s
     = Inr (NDArray (shape (inputA s)) (replicate (prod_list (shape (inputA s))) 1))"
  by (simp add: FlattenFeaturesOperation_performGradient_def
      ReshapeFeaturesOperation_performGradient_def SliceOperation_performGradient_def np_ones_def)

theorem performGradient_endNode_ones_witness:
  "FlattenFeaturesOperation_performGradient (\<lambda>c::nat. Inl ValueError)
     \<lparr>shape = [2, 6], result = None, inputA = \<lparr>shape = [2, 3, 2], result = None\<rparr>,
      endNode = True, outputs = [], nExamples = 2\<rparr>
     = Inr (NDArray [2, 3, 2] (replicate 12 (1::int))) \<and>
   ReshapeFeaturesOperation_performGradient (\<lambda>c::nat. Inl ValueError)
     \<lparr>shape = [2, 3, 2], result = None, inputA = \<lparr>shape = [2, 6], result = None\<rparr>,
      endNode = True, outputs = [], nExamples = 2, exampleShape = PyTuple [3, 2]\<rparr>
     = Inr (NDArray [2, 6] (replicate 12 (1::int))) \<and>
   SliceOperation_performGradient (\<lambda>c::nat. Inl ValueError)
     \<lparr>shape = [2], result = None, inputA = \<lparr>shape = [2, 2], result = None\<rparr>,
      endNode = True, outputs = [], indexExp = [Index 0, Slice None None None]\<rparr>
     = Inr (NDArray [2, 2] (replicate 4 (1::int)))"
  using performGradient_endNode_ones
    [of "\<lparr>shape = [2, 6], result = None, inputA = \<lparr>shape = [2, 3, 2], result = None\<rparr>,
          endNode = True, outputs = [], nExamples = 2\<rparr>"
        "\<lparr>shape = [2, 3, 2], result = None, inputA = \<lparr>shape = [2, 6], result = None\<rparr>,
          endNode = True, outputs = [], nExamples = 2, exampleShape = PyTuple [3, 2]\<rparr>"
        "\<lparr>shape = [2], result = None, inputA = \<lparr>shape = [2, 2], result = None\<rparr>,
          endNode = True, outputs = [], indexExp = [Index 0, Slice None None None]\<rparr>"
        "\<lambda>c::nat. Inl ValueError" "\<lambda>c::nat. Inl ValueError" "\<lambda>c::nat. Inl ValueError"]
  by simp

section \<open>Errors at construction\<close>

lemma slice_positions_error: "slice_positions a b c d = Inl e \<Longrightarrow> e = ValueError"
  by (auto simp: slice_positions_def Let_def split: if_splits)

lemma normalise_error: "normalise i d = Inl e \<Longrightarrow> e = IndexError"
  by (auto simp: normalise_def split: if_splits)

lemma normalise_all_error: "normalise_all js d = Inl e \<Longrightarrow> e = IndexError"
  by (induction js arbitrary: e) (auto split: sum.splits dest: normalise_error)

lemma index_axes_error: "index_axes idx dims = Inl e \<Longrightarrow> e \<noteq> ShapeError"
proof (induction idx dims arbitrary: e rule: index_axes.induct)
  case (4 i items d ds)
  then show ?case
    by (auto split: sum.splits dest: normalise_error)
next
  case (5 js items d ds)
  then show ?case
    by (auto split: sum.splits dest: normalise_all_error)
next
  case (6 start stop step items d ds)
  then show ?case
    by (auto split: sum.splits dest: slice_positions_error)
qed (auto simp: Let_def split: sum.splits)

lemma joint_length_error: "joint_length picks = Inl e \<Longrightarrow> e = IndexError"
  by (auto simp: joint_length_def split: list.splits if_splits)

lemma select_error: "select idx dims = Inl e \<Longrightarrow> e \<noteq> ShapeError"
  by (auto simp: select_def Let_def split: sum.splits if_splits
      dest: index_axes_error joint_length_error)

lemma index_positions_error: "index_positions dims idx = Inl e \<Longrightarrow> e \<noteq> ShapeError"
  by (auto simp: index_positions_def split: if_splits dest: select_error)

lemma SliceOperation_setShape_error: "SliceOperation_setShape self = Inl e \<Longrightarrow> e \<noteq> ShapeError"
  by (auto simp: SliceOperation_setShape_def getitem_def Let_def
      split: sum.splits prod.splits dest: index_positions_error)

text \<open>
  C6 (as the code has it). Constructing a \<open>SliceOperation\<close> without an index expression
  raises \<open>ValueError\<close>; with more integers and slices than the input has dimensions,
  numpy's \<open>IndexError\<close> leaves \<open>setShape\<close> during construction; \<open>ShapeError\<close> is never
  raised.
\<close>

theorem SliceOperation_init_errors:
  "(SliceOperation_init inp None :: py_error + ('a::zero, 'c) SliceOperation) = Inl ValueError \<and>
   (length (shape inp) < length (filter consumes_axis ie) \<longrightarrow>
      (SliceOperation_init inp (Some ie) :: py_error + ('a, 'c) SliceOperation) = Inl IndexError) \<and>
   (SliceOperation_init inp arg :: py_error + ('a, 'c) SliceOperation) \<noteq> Inl ShapeError"
proof (intro conjI impI)
  show "(SliceOperation_init inp None :: py_error + ('a, 'c) SliceOperation) = Inl ValueError"
    by (simp add: SliceOperation_init_def)
  show "(SliceOperation_init inp (Some ie) :: py_error + ('a, 'c) SliceOperation) = Inl IndexError"
    if "length (shape inp) < length (filter consumes_axis ie)"
    using that
    by (simp add: SliceOperation_init_def SingleInputOperation_init_def
        SliceOperation_setShape_def getitem_def index_positions_def np_zeros_def Let_def)
  show "(SliceOperation_init inp arg :: py_error + ('a, 'c) SliceOperation) \<noteq> Inl ShapeError"
    by (cases arg)
      (auto simp: SliceOperation_init_def SingleInputOperation_init_def
        dest: SliceOperation_setShape_error)
qed


theorem SliceOperation_init_errors_witness:
  "(SliceOperation_init \<lparr>shape = [2, 2], result = None\<rparr> None
      :: py_error + (int, nat) SliceOperation) = Inl ValueError \<and>
   length [2, 2 :: nat] < length (filter consumes_axis [Index 0, Index 0, Index 0]) \<and>
   (SliceOperation_init \<lparr>shape = [2, 2], result = None\<rparr> (Some [Index 0, Index 0, Index 0])
      :: py_error + (int, nat) SliceOperation) = Inl IndexError"
  using SliceOperation_init_errors
    [of "\<lparr>shape = [2, 2], result = (None :: int ndarray option)\<rparr>"
        "[Index 0, Index 0, Index 0]" None, where ?'c = nat]
  by (simp add: consumes_axis_def)

text \<open>The claim as stated, "a missing or incompatible index expression raises
  ShapeError", fails: the errors are \<open>ValueError\<close> and \<open>IndexError\<close>.\<close>

theorem SliceOperation_init_ShapeError_counterexample:
  "(SliceOperation_init \<lparr>shape = [2, 2], result = None\<rparr> None
      :: py_error + (int, nat) SliceOperation) = Inl ValueError \<and>
   (SliceOperation_init \<lparr>shape = [2, 2], result = None\<rparr> (Some [Index 0, Index 0, Index 0])
      :: py_error + (int, nat) SliceOperation) = Inl IndexError"
  by (simp add: SliceOperation_init_def SingleInputOperation_init_def
      SliceOperation_setShape_def getitem_def index_positions_def np_zeros_def Let_def
      consumes_axis_def)

text \<open>
  C7 (as the code has it). \<open>ReshapeFeaturesOperation.setShape\<close> does not validate: it
  never raises \<open>ShapeError\<close>, and for a tuple \<open>exampleShape\<close> it succeeds with the shape
  \<open>(nExamples,) + exampleShape\<close> whatever the input's shape is. An input whose element
  count does not fit is only met by \<open>perform\<close>, where numpy's reshape raises
  \<open>ValueError\<close>.
\<close>

theorem Reshape_setShape_no_validation:
  "ReshapeFeaturesOperation_setShape self \<noteq> Inl ShapeError \<and>
   (exampleShape self = PyTuple es \<longrightarrow>
      (\<exists>self'. ReshapeFeaturesOperation_setShape self = Inr self' \<and>
         shape self' = (if 2 \<le> length (shape (inputA self)) then shape (inputA self) ! 0 else 1) # es \<and>
         (\<forall>a. length (flat a) \<noteq> prod_list (shape self') \<longrightarrow>
              ReshapeFeaturesOperation_perform self' a = Inl ValueError)))"
  by (cases "exampleShape self")
    (auto simp: ReshapeFeaturesOperation_setShape_def tuple_add_def Let_def
      ReshapeFeaturesOperation_perform_def reshape_def)

theorem Reshape_setShape_no_validation_witness:
  "ReshapeFeaturesOperation_setShape
     \<lparr>shape = [], result = (None :: int ndarray option),
      inputA = \<lparr>shape = [2, 3], result = None\<rparr>, endNode = True, outputs = ([] :: nat list),
      nExamples = 0, exampleShape = PyTuple [2, 2]\<rparr> \<noteq> Inl ShapeError \<and>
   (\<exists>self'. ReshapeFeaturesOperation_setShape
       \<lparr>shape = [], result = (None :: int ndarray option),
        inputA = \<lparr>shape = [2, 3], result = None\<rparr>, endNode = True, outputs = ([] :: nat list),
        nExamples = 0, exampleShape = PyTuple [2, 2]\<rparr> = Inr self' \<and>
      shape self' = [2, 2, 2] \<and>
      ReshapeFeaturesOperation_perform self' (NDArray [2, 3] [1, 2, 3, 4, 5, 6]) = Inl ValueError)"
proof -
  let ?self = "\<lparr>shape = [], result = (None :: int ndarray option),
      inputA = \<lparr>shape = [2, 3], result = None\<rparr>, endNode = True, outputs = ([] :: nat list),
      nExamples = 0, exampleShape = PyTuple [2, 2]\<rparr>"
  from Reshape_setShape_no_validation [of ?self "[2, 2]"]
  obtain self' where a: "ReshapeFeaturesOperation_setShape ?self \<noteq> Inl ShapeError"
    and b: "ReshapeFeaturesOperation_setShape ?self = Inr self'"
    and c: "shape self' = [2, 2, 2]"
    and d: "\<forall>a. length (flat a) \<noteq> prod_list (shape self') \<longrightarrow>
              ReshapeFeaturesOperation_perform self' a = Inl ValueError"
    by auto
  from d c have "ReshapeFeaturesOperation_perform self' (NDArray [2, 3] [1, 2, 3, 4, 5, 6])
                 = Inl ValueError"
    by simp
  with a b c show ?thesis by blast
qed

text \<open>The claim as stated fails: a \<open>(2, 3)\<close> input with \<open>exampleShape = (2, 2)\<close>
  (three elements per example against four) passes \<open>setShape\<close>.\<close>

theorem Reshape_setShape_incompatible_counterexample:
  "ReshapeFeaturesOperation_setShape
     \<lparr>shape = [], result = (None :: int ndarray option),
      inputA = \<lparr>shape = [2, 3], result = None\<rparr>, endNode = True, outputs = ([] :: nat list),
      nExamples = 0, exampleShape = PyTuple [2, 2]\<rparr>
   = Inr \<lparr>shape = [2, 2, 2], result = None,
          inputA = \<lparr>shape = [2, 3], result = None\<rparr>, endNode = True, outputs = [],
          nExamples = 2, exampleShape = PyTuple [2, 2]\<rparr> \<and>
   prod_list [3] \<noteq> prod_list [2, 2 :: nat]"
  by (simp add: ReshapeFeaturesOperation_setShape_def tuple_add_def)

section \<open>Shape inference reads shapes only\<close>

lemma index_positions_shape_only:
  "map_sum id ashape (getitem a idx) = map_sum id fst (index_positions (ashape a) idx)"
  by (simp add: getitem_def split: sum.splits prod.splits)

text \<open>
  C8. The output shape that \<open>setShape\<close> computes (or the error it raises) is a function of
  the input operation's shape and of \<open>exampleShape\<close> / \<open>indexExp\<close> alone: two nodes that
  agree on these and differ in anything else (cached data, consumers, flags) get the same
  shape, so the shape is known before any data flows. For a \<open>SliceOperation\<close> it is the
  shape \<open>perform\<close> gives on any data of the input's shape.
\<close>

theorem setShape_depends_on_shape_only:
  "(shape (inputA f1) = shape (inputA f2) \<longrightarrow>
      map_sum id shape (FlattenFeaturesOperation_setShape f1)
      = map_sum id shape (FlattenFeaturesOperation_setShape f2)) \<and>
   (shape (inputA r1) = shape (inputA r2) \<and> exampleShape r1 = exampleShape r2 \<longrightarrow>
      map_sum id shape (ReshapeFeaturesOperation_setShape r1)
      = map_sum id shape (ReshapeFeaturesOperation_setShape r2)) \<and>
   (shape (inputA s1) = shape (inputA s2) \<and> indexExp s1 = indexExp s2 \<longrightarrow>
      map_sum id shape (SliceOperation_setShape s1)
      = map_sum id shape (SliceOperation_setShape s2)) \<and>
   (ashape a = shape (inputA s1) \<longrightarrow>
      map_sum id ashape (SliceOperation_perform s1 a)
      = map_sum id shape (SliceOperation_setShape s1))"
proof (intro conjI impI)
  assume "shape (inputA f1) = shape (inputA f2)"
  then show "map_sum id shape (FlattenFeaturesOperation_setShape f1)
      = map_sum id shape (FlattenFeaturesOperation_setShape f2)"
    by (simp add: FlattenFeaturesOperation_setShape_def Let_def split: list.splits)
next
  assume "shape (inputA r1) = shape (inputA r2) \<and> exampleShape r1 = exampleShape r2"
  then show "map_sum id shape (ReshapeFeaturesOperation_setShape r1)
      = map_sum id shape (ReshapeFeaturesOperation_setShape r2)"
    by (simp add: ReshapeFeaturesOperation_setShape_def Let_def split: sum.splits)
next
  have *: "map_sum id shape (SliceOperation_setShape s)
           = map_sum id fst (index_positions (shape (inputA s)) (indexExp s))" for s :: "('x::zero, 'y, 'w) SliceOperation_scheme"
    by (simp add: SliceOperation_setShape_def Let_def getitem_def np_zeros_def
        split: sum.splits prod.splits)
  {
    assume "shape (inputA s1) = shape (inputA s2) \<and> indexExp s1 = indexExp s2"
    then show "map_sum id shape (SliceOperation_setShape s1)
        = map_sum id shape (SliceOperation_setShape s2)"
      by (simp add: *)
  }
  {
    assume "ashape a = shape (inputA s1)"
    then show "map_sum id ashape (SliceOperation_perform s1 a)
        = map_sum id shape (SliceOperation_setShape s1)"
      by (simp add: * SliceOperation_perform_def index_positions_shape_only)
  }
qed


theorem setShape_depends_on_shape_only_witness:
  "map_sum id shape (FlattenFeaturesOperation_setShape
      \<lparr>shape = [], result = None,
       inputA = \<lparr>shape = [2, 2, 1], result = Some (NDArray [2, 2, 1] [1, 2, 3, 4 :: int])\<rparr>,
       endNode = True, outputs = ([] :: nat list), nExamples = 0\<rparr>)
   = map_sum id shape (FlattenFeaturesOperation_setShape
      \<lparr>shape = [5], result = Some (NDArray [5] [0, 0, 0, 0, 0]),
       inputA = \<lparr>shape = [2, 2, 1], result = Some (NDArray [2, 2, 1] [5, 6, 7, 8 :: int])\<rparr>,
       endNode = False, outputs = [1 :: nat], nExamples = 9\<rparr>) \<and>
   map_sum id shape (ReshapeFeaturesOperation_setShape
      \<lparr>shape = [], result = None,
       inputA = \<lparr>shape = [2, 4], result = Some (NDArray [2, 4] [1, 2, 3, 4, 5, 6, 7, 8 :: int])\<rparr>,
       endNode = True, outputs = ([] :: nat list), nExamples = 0,
       exampleShape = PyTuple [2, 2]\<rparr>)
   = map_sum id shape (ReshapeFeaturesOperation_setShape
      \<lparr>shape = [], result = None,
       inputA = \<lparr>shape = [2, 4], result = (None :: int ndarray option)\<rparr>,
       endNode = True, outputs = ([] :: nat list), nExamples = 0,
       exampleShape = PyTuple [2, 2]\<rparr>) \<and>
   map_sum id shape (SliceOperation_setShape
      \<lparr>shape = [], result = None,
       inputA = \<lparr>shape = [2, 2], result = Some (NDArray [2, 2] [1, 2, 3, 4 :: int])\<rparr>,
       endNode = True, outputs = ([] :: nat list),
       indexExp = [Index 0, Slice None None None]\<rparr>)
   = map_sum id shape (SliceOperation_setShape
      \<lparr>shape = [], result = None,
       inputA = \<lparr>shape = [2, 2], result = Some (NDArray [2, 2] [9, 9, 9, 9 :: int])\<rparr>,
       endNode = True, outputs = ([] :: nat list),
       indexExp = [Index 0, Slice None None None]\<rparr>) \<and>
   map_sum id ashape (SliceOperation_perform
      \<lparr>shape = [], result = None,
       inputA = \<lparr>shape = [2, 2], result = Some (NDArray [2, 2] [1, 2, 3, 4 :: int])\<rparr>,
       endNode = True, outputs = ([] :: nat list),
       indexExp = [Index 0, Slice None None None]\<rparr> (NDArray [2, 2] [1, 2, 3, 4]))
   = map_sum id shape (SliceOperation_setShape
      \<lparr>shape = [], result = None,
       inputA = \<lparr>shape = [2, 2], result = Some (NDArray [2, 2] [1, 2, 3, 4 :: int])\<rparr>,
       endNode = True, outputs = ([] :: nat list),
       indexExp = [Index 0, Slice None None None]\<rparr>)"
  using setShape_depends_on_shape_only
    [of "\<lparr>shape = [], result = None,
          inputA = \<lparr>shape = [2, 2, 1], result = Some (NDArray [2, 2, 1] [1, 2, 3, 4 :: int])\<rparr>,
          endNode = True, outputs = ([] :: nat list), nExamples = 0\<rparr>"
        "\<lparr>shape = [5], result = Some (NDArray [5] [0, 0, 0, 0, 0]),
          inputA = \<lparr>shape = [2, 2, 1], result = Some (NDArray [2, 2, 1] [5, 6, 7, 8 :: int])\<rparr>,
          endNode = False, outputs = [1 :: nat], nExamples = 9\<rparr>"
        "\<lparr>shape = [], result = None,
          inputA = \<lparr>shape = [2, 4], result = Some (NDArray [2, 4] [1, 2, 3, 4, 5, 6, 7, 8 :: int])\<rparr>,
          endNode = True, outputs = ([] :: nat list), nExamples = 0,
          exampleShape = PyTuple [2, 2]\<rparr>"
        "\<lparr>shape = [], result = None,
          inputA = \<lparr>shape = [2, 4], result = (None :: int ndarray option)\<rparr>,
          endNode = True, outputs = ([] :: nat list), nExamples = 0,
          exampleShape = PyTuple [2, 2]\<rparr>"
        "\<lparr>shape = [], result = None,
          inputA = \<lparr>shape = [2, 2], result = Some (NDArray [2, 2] [1, 2, 3, 4 :: int])\<rparr>,
          endNode = True, outputs = ([] :: nat list),
          indexExp = [Index 0, Slice None None None]\<rparr>"
        "\<lparr>shape = [], result = None,
          inputA = \<lparr>shape = [2, 2], result = Some (NDArray [2, 2] [9, 9, 9, 9 :: int])\<rparr>,
          endNode = True, outputs = ([] :: nat list),
          indexExp = [Index 0, Slice None None None]\<rparr>"
        "NDArray [2, 2] [1, 2, 3, 4]"]
  by simp

section \<open>Flatten and Reshape propagate gradients alike\<close>

lemma Flatten_performGradient_sum:
  "\<not> endNode f \<Longrightarrow>
   list_all2 (\<lambda>out c. \<exists>g. getGradient out = Inr g \<and> reshape g (shape (inputA f)) = Inr c)
     (outputs f) cs \<Longrightarrow>
   FlattenFeaturesOperation_performGradient getGradient f
     = Inr (sum_arrays (shape (inputA f)) cs)"
  by (simp add: FlattenFeaturesOperation_performGradient_def Flatten_gradLoop_sum
      sum_arrays_def np_zeros_def)

text \<open>
  C10. \<open>FlattenFeaturesOperation.performGradient\<close> and
  \<open>ReshapeFeaturesOperation.performGradient\<close> compute the same function: on nodes with the
  same \<open>endNode\<close> flag, input shape and consumers they return the same array (or raise
  the same error), namely ones of the input shape for an end node, and otherwise the sum
  of the consumers' gradients, each reshaped to the input shape.
\<close>

theorem Flatten_Reshape_performGradient_same:
  assumes "endNode f = endNode r"
    and "shape (inputA f) = shape (inputA r)"
    and "outputs f = outputs r"
  shows "FlattenFeaturesOperation_performGradient getGradient f
           = ReshapeFeaturesOperation_performGradient getGradient r \<and>
         (endNode f \<longrightarrow>
            FlattenFeaturesOperation_performGradient getGradient f
              = Inr (np_ones (shape (inputA f)))) \<and>
         (\<not> endNode f \<and>
          list_all2 (\<lambda>out c. \<exists>g. getGradient out = Inr g \<and> reshape g (shape (inputA f)) = Inr c)
            (outputs f) cs \<longrightarrow>
            FlattenFeaturesOperation_performGradient getGradient f
              = Inr (sum_arrays (shape (inputA f)) cs))"
proof (intro conjI impI)
  show "FlattenFeaturesOperation_performGradient getGradient f
           = ReshapeFeaturesOperation_performGradient getGradient r"
    using assms
    by (simp add: FlattenFeaturesOperation_performGradient_def
        ReshapeFeaturesOperation_performGradient_def Reshape_gradLoop_eq)
next
  assume "endNode f"
  then show "FlattenFeaturesOperation_performGradient getGradient f
              = Inr (np_ones (shape (inputA f)))"
    by (simp add: FlattenFeaturesOperation_performGradient_def)
next
  assume "\<not> endNode f \<and>
          list_all2 (\<lambda>out c. \<exists>g. getGradient out = Inr g \<and> reshape g (shape (inputA f)) = Inr c)
            (outputs f) cs"
  then show "FlattenFeaturesOperation_performGradient getGradient f
              = Inr (sum_arrays (shape (inputA f)) cs)"
    by (simp add: Flatten_performGradient_sum)
qed

theorem Flatten_Reshape_performGradient_same_witness:
  "FlattenFeaturesOperation_performGradient
     (\<lambda>c::nat. if c = 0 then Inr (NDArray [4] [1, 2, 3, 4 :: int])
                else Inr (NDArray [2, 2] [10, 20, 30, 40]))
     \<lparr>shape = [2, 2], result = None, inputA = \<lparr>shape = [2, 2], result = None\<rparr>,
      endNode = False, outputs = [0, 1], nExamples = 2\<rparr>
   = ReshapeFeaturesOperation_performGradient
     (\<lambda>c::nat. if c = 0 then Inr (NDArray [4] [1, 2, 3, 4 :: int])
                else Inr (NDArray [2, 2] [10, 20, 30, 40]))
     \<lparr>shape = [2, 1, 2], result = None, inputA = \<lparr>shape = [2, 2], result = None\<rparr>,
      endNode = False, outputs = [0, 1], nExamples = 2, exampleShape = PyTuple [1, 2]\<rparr> \<and>
   FlattenFeaturesOperation_performGradient
     (\<lambda>c::nat. if c = 0 then Inr (NDArray [4] [1, 2, 3, 4 :: int])
                else Inr (NDArray [2, 2] [10, 20, 30, 40]))
     \<lparr>shape = [2, 2], result = None, inputA = \<lparr>shape = [2, 2], result = None\<rparr>,
      endNode = False, outputs = [0, 1], nExamples = 2\<rparr>
   = Inr (NDArray [2, 2] [11, 22, 33, 44])"
  using Flatten_Reshape_performGradient_same
    [of "\<lparr>shape = [2, 2], result = None, inputA = \<lparr>shape = [2, 2], result = None\<rparr>,
          endNode = False, outputs = [0, 1], nExamples = 2\<rparr>"
        "\<lparr>shape = [2, 1, 2], result = None, inputA = \<lparr>shape = [2, 2], result = None\<rparr>,
          endNode = False, outputs = [0, 1], nExamples = 2, exampleShape = PyTuple [1, 2]\<rparr>"
        "\<lambda>c::nat. if c = 0 then Inr (NDArray [4] [1, 2, 3, 4 :: int])
                   else Inr (NDArray [2, 2] [10, 20, 30, 40])"
        "[NDArray [2, 2] [1, 2, 3, 4], NDArray [2, 2] [10, 20, 30, 40]]"]
  by (auto simp: reshape_def sum_arrays_def add_arrays_def np_zeros_def eval_nat_numeral)

section \<open>Flatten followed by Reshape\<close>

text \<open>
  C3 (as the code has it). For an input array of rank at least two, \<open>Flatten\<close> followed by
  \<open>Reshape\<close> with \<open>exampleShape\<close> equal to the original per-example shape gives back the
  original array, contents and shape.
\<close>

theorem flatten_then_reshape_identity:
  assumes "wf_array a" and "ashape a = n # d # ds"
  shows "flatten_then_reshape a (PyTuple (d # ds)) = Inr a"
proof -
  have len: "length (flat a) = n * (d * prod_list ds)"
    using assms by (simp add: wf_array_def)
  have a: "NDArray (n # d # ds) (flat a) = a"
    using assms(2) by (cases a) simp
  show ?thesis
    using assms(2) len a
    by (simp add: flatten_then_reshape_def FlattenFeaturesOperation_init_def
        SingleInputOperation_init_def FlattenFeaturesOperation_setShape_def
        numFeatures_loop_prod FlattenFeaturesOperation_perform_def reshape_def
        ReshapeFeaturesOperation_init_def ReshapeFeaturesOperation_setShape_def
        tuple_add_def ReshapeFeaturesOperation_perform_def)
qed

theorem flatten_then_reshape_identity_witness:
  "wf_array (NDArray [2, 2, 1] [1, 2, 3, 4 :: int]) \<and>
   flatten_then_reshape (NDArray [2, 2, 1] [1, 2, 3, 4 :: int]) (PyTuple [2, 1])
     = Inr (NDArray [2, 2, 1] [1, 2, 3, 4])"
proof -
  have w: "wf_array (NDArray [2, 2, 1] [1, 2, 3, 4 :: int])"
    by (simp add: wf_array_def)
  from flatten_then_reshape_identity [OF w, of 2 2 "[1]"] w show ?thesis
    by simp
qed

text \<open>The claim for any input array fails at rank one: \<open>Flatten\<close> takes the vector
  \<open>(3,)\<close> as one example, and the round trip ends with shape \<open>(1, 3)\<close>, or with a
  \<open>ValueError\<close> when the per-example shape is taken to be \<open>()\<close>.\<close>

theorem flatten_then_reshape_rank_1_counterexample:
  "flatten_then_reshape (NDArray [3] [1, 2, 3 :: int]) (PyTuple [3])
     = Inr (NDArray [1, 3] [1, 2, 3]) \<and>
   NDArray [1, 3] [1, 2, 3] \<noteq> NDArray [3] [1, 2, 3 :: int] \<and>
   flatten_then_reshape (NDArray [3] [1, 2, 3 :: int]) (PyTuple []) = Inl ValueError"
  by (simp add: flatten_then_reshape_def FlattenFeaturesOperation_init_def
        SingleInputOperation_init_def FlattenFeaturesOperation_setShape_def
        FlattenFeaturesOperation_perform_def reshape_def
        ReshapeFeaturesOperation_init_def ReshapeFeaturesOperation_setShape_def
        tuple_add_def ReshapeFeaturesOperation_perform_def)

section \<open>The positions an index expression selects\<close>

lemma offset_bound:
  "p < m \<Longrightarrow> off < stride \<Longrightarrow> p * stride + off < m * (stride::nat)"
proof -
  assume a: "p < m" "off < stride"
  then have "p * stride + off < Suc p * stride" by simp
  also from a(1) have "Suc p * stride \<le> m * stride"
    by (intro mult_le_mono1) simp
  finally show ?thesis .
qed

lemma set_cart_Cons:
  "x \<in> set (cart (l # ls)) \<longleftrightarrow> (\<exists>a\<in>set l. \<exists>b\<in>set (cart ls). x = a + b)"
  by auto

lemma set_cart_append:
  "x \<in> set (cart (xs @ ys)) \<longleftrightarrow> (\<exists>a\<in>set (cart xs). \<exists>b\<in>set (cart ys). x = a + b)"
proof (induction xs arbitrary: x)
  case Nil
  show ?case by simp
next
  case (Cons l xs)
  show ?case
  proof
    assume "x \<in> set (cart ((l # xs) @ ys))"
    then obtain a b where "a \<in> set l" "b \<in> set (cart (xs @ ys))" "x = a + b"
      by auto
    moreover from this Cons.IH [of b] obtain c d
      where "c \<in> set (cart xs)" "d \<in> set (cart ys)" "b = c + d"
      by blast
    ultimately have "a + c \<in> set (cart (l # xs))" "d \<in> set (cart ys)" "x = (a + c) + d"
      by auto
    then show "\<exists>a\<in>set (cart (l # xs)). \<exists>b\<in>set (cart ys). x = a + b"
      by blast
  next
    assume "\<exists>a\<in>set (cart (l # xs)). \<exists>b\<in>set (cart ys). x = a + b"
    then obtain a c d where "a \<in> set l" "c \<in> set (cart xs)" "d \<in> set (cart ys)"
      "x = (a + c) + d"
      by auto
    moreover from this Cons.IH [of "c + d"] have "c + d \<in> set (cart (xs @ ys))"
      by blast
    ultimately have "a \<in> set l" "c + d \<in> set (cart (xs @ ys))" "x = a + (c + d)"
      by auto
    then show "x \<in> set (cart ((l # xs) @ ys))"
      unfolding append_Cons set_cart_Cons by blast
  qed
qed

lemma set_cart_partition:
  "x \<in> set (cart (map contribs axes)) \<longleftrightarrow>
   (\<exists>a\<in>set (cart (map contribs (filter (\<lambda>ax. \<not> is_pick ax) axes))).
    \<exists>b\<in>set (cart (map contribs (filter is_pick axes))). x = a + b)"
proof (induction axes arbitrary: x)
  case Nil
  show ?case by simp
next
  case (Cons ax axes)
  let ?K = "set (cart (map contribs (filter (\<lambda>ax. \<not> is_pick ax) axes)))"
  let ?P = "set (cart (map contribs (filter is_pick axes)))"
  have step: "x \<in> set (cart (map contribs (ax # axes))) \<longleftrightarrow>
              (\<exists>c\<in>set (contribs ax). \<exists>a\<in>?K. \<exists>b\<in>?P. x = c + (a + b))"
  proof -
    have "x \<in> set (cart (map contribs (ax # axes))) \<longleftrightarrow>
          (\<exists>c\<in>set (contribs ax). \<exists>y\<in>set (cart (map contribs axes)). x = c + y)"
      unfolding list.map set_cart_Cons ..
    also have "\<dots> \<longleftrightarrow> (\<exists>c\<in>set (contribs ax). \<exists>a\<in>?K. \<exists>b\<in>?P. x = c + (a + b))"
    proof
      assume "\<exists>c\<in>set (contribs ax). \<exists>y\<in>set (cart (map contribs axes)). x = c + y"
      then obtain c y where c: "c \<in> set (contribs ax)" and y: "y \<in> set (cart (map contribs axes))"
        and x: "x = c + y"
        by blast
      from y Cons.IH [of y] obtain a b where "a \<in> ?K" "b \<in> ?P" "y = a + b"
        by blast
      with c x show "\<exists>c\<in>set (contribs ax). \<exists>a\<in>?K. \<exists>b\<in>?P. x = c + (a + b)"
        by blast
    next
      assume "\<exists>c\<in>set (contribs ax). \<exists>a\<in>?K. \<exists>b\<in>?P. x = c + (a + b)"
      then obtain c a b where c: "c \<in> set (contribs ax)" and ab: "a \<in> ?K" "b \<in> ?P"
        and x: "x = c + (a + b)"
        by blast
      from ab Cons.IH [of "a + b"] have "a + b \<in> set (cart (map contribs axes))"
        by blast
      with c x show "\<exists>c\<in>set (contribs ax). \<exists>y\<in>set (cart (map contribs axes)). x = c + y"
        by blast
    qed
    finally show ?thesis .
  qed
  show ?case
  proof (cases ax)
    case (Kept ps)
    have "(\<exists>a\<in>set (cart (map contribs (filter (\<lambda>ax. \<not> is_pick ax) (ax # axes)))).
            \<exists>b\<in>set (cart (map contribs (filter is_pick (ax # axes)))). x = a + b)
          \<longleftrightarrow> (\<exists>c\<in>set ps. \<exists>a\<in>?K. \<exists>b\<in>?P. x = (c + a) + b)"
      unfolding Kept by (simp add: Bex_def) blast
    with step Kept show ?thesis
      by (simp add: add.assoc)
  next
    case (Pick ps)
    have "(\<exists>a\<in>set (cart (map contribs (filter (\<lambda>ax. \<not> is_pick ax) (ax # axes)))).
            \<exists>b\<in>set (cart (map contribs (filter is_pick (ax # axes)))). x = a + b)
          \<longleftrightarrow> (\<exists>c\<in>set ps. \<exists>a\<in>?K. \<exists>b\<in>?P. x = a + (c + b))"
      unfolding Pick by (simp add: Bex_def) blast
    with step Pick show ?thesis
      by (simp add: add.left_commute)
  qed
qed

lemma length_cart: "length (cart ls) = prod_list (map length ls)"
proof (induction ls)
  case Nil
  show ?case by simp
next
  case (Cons l ls)
  have "map length (map (\<lambda>a. map (\<lambda>off. a + off) (cart ls)) l)
        = map (\<lambda>a. length (cart ls)) l"
    by simp
  then have "length (cart (l # ls)) = length l * length (cart ls)"
    by (simp only: cart.simps length_concat sum_list_triv) simp
  with Cons show ?case by simp
qed


lemma cart_scaled:
  "cart (map (\<lambda>p. p * stride) ps # ls)
   = concat (map (\<lambda>p. map (\<lambda>off. p * stride + off) (cart ls)) ps)"
  by (simp add: comp_def)

lemma block_bound:
  "\<forall>off\<in>set offs. off < stride \<Longrightarrow> \<forall>p\<in>set ps. p < m \<Longrightarrow>
   \<forall>q\<in>set (concat (map (\<lambda>p. map (\<lambda>off. p * stride + off) offs) ps)). q < m * (stride::nat)"
  by (auto intro: offset_bound)

lemma normalise_bound: "normalise i d = Inr p \<Longrightarrow> p < d"
  by (auto simp: normalise_def split: if_splits)

lemma normalise_all_bound: "normalise_all js d = Inr ps \<Longrightarrow> \<forall>p\<in>set ps. p < d"
  by (induction js arbitrary: ps) (auto split: sum.splits dest: normalise_bound)

lemma full_axes_prefix_bound:
  "k \<le> length dims \<Longrightarrow> \<forall>x\<in>set (cart rest). x < prod_list (drop k dims) \<Longrightarrow>
   \<forall>x\<in>set (cart (map contribs (take k (full_axes dims)) @ rest)). x < prod_list dims"
proof (induction dims arbitrary: k)
  case Nil
  then show ?case by simp
next
  case (Cons d ds)
  show ?case
  proof (cases k)
    case 0
    with Cons.prems show ?thesis by simp
  next
    case (Suc k')
    with Cons.prems have "\<forall>x\<in>set (cart (map contribs (take k' (full_axes ds)) @ rest)).
                            x < prod_list ds"
      by (intro Cons.IH) simp_all
    from block_bound [OF this, of "[0..<d]" d] Suc show ?thesis
      by (simp add: comp_def)
  qed
qed

lemma offset_unique:
  "o1 < stride \<Longrightarrow> o2 < stride \<Longrightarrow> p1 * stride + o1 = p2 * stride + o2 \<Longrightarrow>
   p1 = p2 \<and> o1 = (o2::nat)"
proof -
  assume a: "o1 < stride" "o2 < stride" "p1 * stride + o1 = p2 * stride + o2"
  from a(3) have "(p1 * stride + o1) div stride = (p2 * stride + o2) div stride"
    by simp
  with a(1,2) have "p1 = p2" by simp
  with a(3) show ?thesis by simp
qed

lemma block_offsets:
  assumes "distinct (offs :: nat list)" and "\<forall>off\<in>set offs. off < stride"
  shows "distinct ps \<Longrightarrow> \<forall>p\<in>set ps. p < m \<Longrightarrow>
         distinct (concat (map (\<lambda>p. map (\<lambda>off. p * stride + off) offs) ps)) \<and>
         (\<forall>q\<in>set (concat (map (\<lambda>p. map (\<lambda>off. p * stride + off) offs) ps)). q < m * stride) \<and>
         length (concat (map (\<lambda>p. map (\<lambda>off. p * stride + off) offs) ps))
           = length ps * length offs"
proof (induction ps)
  case Nil
  show ?case by simp
next
  case (Cons p ps)
  have inj: "distinct (map (\<lambda>off. p * stride + off) offs)"
    using assms(1) by (simp add: distinct_map inj_on_def)
  have disj: "set (map (\<lambda>off. p * stride + off) offs)
              \<inter> set (concat (map (\<lambda>p. map (\<lambda>off. p * stride + off) offs) ps)) = {}"
  proof (rule ccontr)
    assume "\<not> ?thesis"
    then obtain o1 p2 o2 where "o1 \<in> set offs" "p2 \<in> set ps" "o2 \<in> set offs"
      "p * stride + o1 = p2 * stride + o2"
      by auto
    with assms(2) offset_unique [of o1 stride o2 p p2] have "p = p2" by simp
    with \<open>p2 \<in> set ps\<close> Cons.prems(1) show False by simp
  qed
  have bound: "\<forall>q\<in>set (map (\<lambda>off. p * stride + off) offs). q < m * stride"
    using assms(2) Cons.prems(2) by (auto intro: offset_bound)
  from Cons.IH Cons.prems inj disj bound show ?case
    by auto
qed

lemma slice_adjust_bounds:
  "0 \<le> n \<Longrightarrow>
   (step < 0 \<longrightarrow> - 1 \<le> slice_adjust n step v \<and> slice_adjust n step v \<le> n - 1) \<and>
   (\<not> step < 0 \<longrightarrow> 0 \<le> slice_adjust n step v \<and> slice_adjust n step v \<le> n)"
  by (auto simp: slice_adjust_def)

lemma div_mult_bound: "0 < (b::int) \<Longrightarrow> int k \<le> a div b \<Longrightarrow> int k * b \<le> a"
proof -
  assume b: "0 < b" and k: "int k \<le> a div b"
  then have "int k * b \<le> (a div b) * b"
    by (intro mult_right_mono) simp_all
  also have "\<dots> \<le> a"
    using b by (metis mult.commute pos_mod_sign mult_div_mod_eq le_add_same_cancel1)
  finally show ?thesis .
qed


lemma slice_positions_props:
  assumes "slice_positions start stop step d = Inr ps"
  shows "distinct ps \<and> (\<forall>p\<in>set ps. p < d)"
proof -
  define st where "st = (case step of None \<Rightarrow> 1 | Some s \<Rightarrow> s)"
  define n where "n = int d"
  define lo where "lo = (case start of None \<Rightarrow> (if st < 0 then n - 1 else 0)
                         | Some v \<Rightarrow> slice_adjust n st v)"
  define hi where "hi = (case stop of None \<Rightarrow> (if st < 0 then - 1 else n)
                         | Some v \<Rightarrow> slice_adjust n st v)"
  define len where "len = (if st < 0 then (if hi < lo then (lo - hi - 1) div (- st) + 1 else 0)
                           else (if lo < hi then (hi - lo - 1) div st + 1 else 0))"
  have n0: "0 \<le> n" by (simp add: n_def)
  have "slice_positions start stop step d =
          (if st = 0 then Inl ValueError
           else Inr (map (\<lambda>k. nat (lo + int k * st)) [0..<nat len]))"
    unfolding slice_positions_def Let_def len_def hi_def lo_def n_def st_def
    by (rule refl)
  with assms have st0: "st \<noteq> 0"
    and ps: "ps = map (\<lambda>k. nat (lo + int k * st)) [0..<nat len]"
    by (auto split: if_splits)
  have lo_neg: "- 1 \<le> lo \<and> lo \<le> n - 1" if "st < 0"
    using that n0 slice_adjust_bounds [OF n0, of st] by (auto simp: lo_def split: option.splits)
  have lo_pos: "0 \<le> lo \<and> lo \<le> n" if "\<not> st < 0"
    using that n0 slice_adjust_bounds [OF n0, of st] by (auto simp: lo_def split: option.splits)
  have hi_neg: "- 1 \<le> hi \<and> hi \<le> n - 1" if "st < 0"
    using that n0 slice_adjust_bounds [OF n0, of st] by (auto simp: hi_def split: option.splits)
  have hi_pos: "0 \<le> hi \<and> hi \<le> n" if "\<not> st < 0"
    using that n0 slice_adjust_bounds [OF n0, of st] by (auto simp: hi_def split: option.splits)
  have val: "0 \<le> lo + int k * st \<and> lo + int k * st < n" if k: "k < nat len" for k
  proof (cases "st < 0")
    case True
    with k have lt: "hi < lo" and len: "len = (lo - hi - 1) div (- st) + 1"
      by (auto simp: len_def split: if_splits)
    from k len have "int k \<le> (lo - hi - 1) div (- st)" by linarith
    with True have "int k * (- st) \<le> lo - hi - 1"
      by (intro div_mult_bound) simp_all
    moreover from True have "int k * st \<le> 0"
      by (simp add: mult_nonneg_nonpos)
    ultimately show ?thesis
      using lo_neg [OF True] hi_neg [OF True] by (simp add: algebra_simps)
  next
    case False
    with st0 have pos: "0 < st" by simp
    from False k have lt: "lo < hi" and len: "len = (hi - lo - 1) div st + 1"
      by (auto simp: len_def split: if_splits)
    from k len have "int k \<le> (hi - lo - 1) div st" by linarith
    with pos have "int k * st \<le> hi - lo - 1"
      by (intro div_mult_bound) simp_all
    moreover from pos have "0 \<le> int k * st" by simp
    ultimately show ?thesis
      using lo_pos [OF False] hi_pos [OF False] by simp
  qed
  have "inj_on (\<lambda>k. nat (lo + int k * st)) (set [0..<nat len])"
  proof (rule inj_onI)
    fix k1 k2
    assume k: "k1 \<in> set [0..<nat len]" "k2 \<in> set [0..<nat len]"
      and eq: "nat (lo + int k1 * st) = nat (lo + int k2 * st)"
    from k val [of k1] val [of k2] have "0 \<le> lo + int k1 * st" "0 \<le> lo + int k2 * st"
      by simp_all
    with eq have "lo + int k1 * st = lo + int k2 * st"
      by linarith
    with st0 show "k1 = k2" by simp
  qed
  then have "distinct ps"
    by (simp add: ps distinct_map)
  moreover have "\<forall>p\<in>set ps. p < d"
  proof
    fix p assume "p \<in> set ps"
    then obtain k where "k < nat len" "p = nat (lo + int k * st)"
      by (auto simp: ps)
    with val [of k] show "p < d" unfolding n_def by linarith
  qed
  ultimately show ?thesis by simp
qed


lemma length_full_axes [simp]: "length (full_axes dims) = length dims"
  by (induction dims) simp_all

lemma index_axes_bound:
  "index_axes idx dims = Inr axes \<Longrightarrow>
   \<forall>x\<in>set (cart (map contribs axes)). x < prod_list dims"
proof (induction idx dims arbitrary: axes rule: index_axes.induct)
  case (1 dims)
  have "\<forall>x\<in>set (cart (map contribs (take (length dims) (full_axes dims)) @ [])).
          x < prod_list dims"
    by (rule full_axes_prefix_bound) simp_all
  moreover have "take (length dims) (full_axes dims) = full_axes dims"
    by simp
  ultimately show ?case using "1.prems" by simp
next
  case (2 items dims)
  from "2.prems" obtain axes' where r: "index_axes items dims = Inr axes'"
    and axes: "axes = Kept [0] # axes'"
    by (auto split: sum.splits)
  from "2.IH" [OF r] axes show ?case by simp
next
  case (3 items dims)
  define k where "k = length dims - length (filter consumes_axis items)"
  from "3.prems" obtain axes' where r: "index_axes items (drop k dims) = Inr axes'"
    and axes: "axes = take k (full_axes dims) @ axes'"
    by (auto simp: k_def Let_def split: sum.splits)
  have "k \<le> length dims" by (simp add: k_def)
  from full_axes_prefix_bound [OF this "3.IH" [OF k_def r]] axes show ?case
    by simp
next
  case (4 i items d ds)
  from "4.prems" obtain p axes' where p: "normalise i d = Inr p"
    and r: "index_axes items ds = Inr axes'"
    and axes: "axes = Pick (map (\<lambda>p. p * prod_list ds) [p]) # axes'"
    by (auto split: sum.splits)
  from normalise_bound [OF p] have "\<forall>q\<in>set [p]. q < d" by simp
  from block_bound [OF "4.IH" [OF p r] this] axes show ?case
    by (simp only: list.map contribs.simps cart_scaled) simp
next
  case (5 js items d ds)
  from "5.prems" obtain ps axes' where ps: "normalise_all js d = Inr ps"
    and r: "index_axes items ds = Inr axes'"
    and axes: "axes = Pick (map (\<lambda>p. p * prod_list ds) ps) # axes'"
    by (auto split: sum.splits)
  from block_bound [OF "5.IH" [OF ps r] normalise_all_bound [OF ps]] axes show ?case
    by (simp only: list.map contribs.simps cart_scaled) simp
next
  case (6 start stop step items d ds)
  from "6.prems" obtain ps axes' where ps: "slice_positions start stop step d = Inr ps"
    and r: "index_axes items ds = Inr axes'"
    and axes: "axes = Kept (map (\<lambda>p. p * prod_list ds) ps) # axes'"
    by (auto split: sum.splits)
  from slice_positions_props [OF ps] have "\<forall>p\<in>set ps. p < d" by simp
  from block_bound [OF "6.IH" [OF ps r] this] axes show ?case
    by (simp only: list.map contribs.simps cart_scaled) simp
qed simp_all


lemma full_axes_prefix_distinct:
  "k \<le> length dims \<Longrightarrow> distinct (cart rest) \<Longrightarrow>
   \<forall>x\<in>set (cart rest). x < prod_list (drop k dims) \<Longrightarrow>
   distinct (cart (map contribs (take k (full_axes dims)) @ rest))"
proof (induction dims arbitrary: k)
  case Nil
  then show ?case by simp
next
  case (Cons d ds)
  show ?case
  proof (cases k)
    case 0
    with Cons.prems show ?thesis by simp
  next
    case (Suc k')
    with Cons.prems have d: "distinct (cart (map contribs (take k' (full_axes ds)) @ rest))"
      by (intro Cons.IH) simp_all
    from Suc Cons.prems
    have b: "\<forall>x\<in>set (cart (map contribs (take k' (full_axes ds)) @ rest)). x < prod_list ds"
      by (intro full_axes_prefix_bound) simp_all
    from block_offsets [OF d b, of "[0..<d]" d] Suc show ?thesis
      by (simp add: comp_def)
  qed
qed

lemma index_axes_distinct:
  "index_axes idx dims = Inr axes \<Longrightarrow> \<not> list_ex is_array idx \<Longrightarrow>
   distinct (cart (map contribs axes)) \<and>
   (\<forall>ax\<in>set axes. is_pick ax \<longrightarrow> length (contribs ax) = 1)"
proof (induction idx dims arbitrary: axes rule: index_axes.induct)
  case (1 dims)
  have "distinct (cart (map contribs (take (length dims) (full_axes dims)) @ []))"
    by (rule full_axes_prefix_distinct) simp_all
  moreover have "take (length dims) (full_axes dims) = full_axes dims"
    by simp
  moreover have "\<forall>ax\<in>set (full_axes dims). \<not> is_pick ax"
    by (induction dims) simp_all
  ultimately show ?case using "1.prems" by auto
next
  case (2 items dims)
  from "2.prems" obtain axes' where r: "index_axes items dims = Inr axes'"
    and axes: "axes = Kept [0] # axes'"
    by (auto split: sum.splits)
  from "2.prems"(2) have na: "\<not> list_ex is_array items" by simp
  have "map ((+) 0) (cart (map contribs axes')) = cart (map contribs axes')"
    by (induction "cart (map contribs axes')") simp_all
  with "2.IH" [OF r na] axes show ?case by simp
next
  case (3 items dims)
  define k where "k = length dims - length (filter consumes_axis items)"
  from "3.prems" obtain axes' where r: "index_axes items (drop k dims) = Inr axes'"
    and axes: "axes = take k (full_axes dims) @ axes'"
    by (auto simp: k_def Let_def split: sum.splits)
  have k: "k \<le> length dims" by (simp add: k_def)
  from "3.prems"(2) have na: "\<not> list_ex is_array items" by simp
  from "3.IH" [OF k_def r na]
  have ih: "distinct (cart (map contribs axes'))"
    "\<forall>ax\<in>set axes'. is_pick ax \<longrightarrow> length (contribs ax) = 1"
    by simp_all
  have "\<forall>ax\<in>set (take k (full_axes dims)). \<not> is_pick ax"
  proof
    fix ax assume "ax \<in> set (take k (full_axes dims))"
    then have "ax \<in> set (full_axes dims)" by (rule in_set_takeD)
    then show "\<not> is_pick ax" by (induction dims) auto
  qed
  with full_axes_prefix_distinct [OF k ih(1) index_axes_bound [OF r]] ih(2) axes
  show ?case by auto
next
  case (4 i items d ds)
  from "4.prems" obtain p axes' where p: "normalise i d = Inr p"
    and r: "index_axes items ds = Inr axes'"
    and axes: "axes = Pick (map (\<lambda>p. p * prod_list ds) [p]) # axes'"
    by (auto split: sum.splits)
  from "4.prems"(2) have na: "\<not> list_ex is_array items" by simp
  from "4.IH" [OF p r na]
  have ih: "distinct (cart (map contribs axes'))"
    "\<forall>ax\<in>set axes'. is_pick ax \<longrightarrow> length (contribs ax) = 1"
    by simp_all
  from normalise_bound [OF p] have "distinct [p]" "\<forall>q\<in>set [p]. q < d" by simp_all
  from block_offsets [OF ih(1) index_axes_bound [OF r] this]
  have "distinct (cart (map contribs axes))"
    unfolding axes by (simp only: list.map contribs.simps cart_scaled) simp
  with ih(2) axes show ?case by simp
next
  case (5 js items d ds)
  from "5.prems"(2) show ?case by (simp add: is_array_def)
next
  case (6 start stop step items d ds)
  from "6.prems" obtain ps axes' where ps: "slice_positions start stop step d = Inr ps"
    and r: "index_axes items ds = Inr axes'"
    and axes: "axes = Kept (map (\<lambda>p. p * prod_list ds) ps) # axes'"
    by (auto split: sum.splits)
  from "6.prems"(2) have na: "\<not> list_ex is_array items" by simp
  from "6.IH" [OF ps r na]
  have ih: "distinct (cart (map contribs axes'))"
    "\<forall>ax\<in>set axes'. is_pick ax \<longrightarrow> length (contribs ax) = 1"
    by simp_all
  from slice_positions_props [OF ps] have "distinct ps" "\<forall>p\<in>set ps. p < d" by simp_all
  from block_offsets [OF ih(1) index_axes_bound [OF r] this]
  have "distinct (cart (map contribs axes))"
    unfolding axes by (simp only: list.map contribs.simps cart_scaled)
  with ih(2) axes show ?case by simp
qed simp_all

lemma prod_length_kept:
  "\<forall>ax\<in>set axes. is_pick ax \<longrightarrow> length (contribs ax) = 1 \<Longrightarrow>
   prod_list (map length (map contribs axes))
   = prod_list (map length (map contribs (filter (\<lambda>ax. \<not> is_pick ax) axes)))"
  by (induction axes) auto

lemma filter_kept_split:
  "filter (\<lambda>ax. \<not> is_pick ax) axes
   = takeWhile (\<lambda>ax. \<not> is_pick ax) axes
     @ filter (\<lambda>ax. \<not> is_pick ax) (dropWhile (\<lambda>ax. \<not> is_pick ax) axes)"
proof -
  have "filter (\<lambda>ax. \<not> is_pick ax) (takeWhile (\<lambda>ax. \<not> is_pick ax) axes)
        = takeWhile (\<lambda>ax. \<not> is_pick ax) axes"
    by (induction axes) simp_all
  moreover have "filter (\<lambda>ax. \<not> is_pick ax) axes
    = filter (\<lambda>ax. \<not> is_pick ax)
        (takeWhile (\<lambda>ax. \<not> is_pick ax) axes @ dropWhile (\<lambda>ax. \<not> is_pick ax) axes)"
    by simp
  ultimately show ?thesis by (simp only: filter_append)
qed

lemma joint_length_each:
  "joint_length picks = Inr len \<Longrightarrow> \<forall>ps\<in>set picks. length ps = 1 \<or> length ps = len"
proof
  fix ps assume jl: "joint_length picks = Inr len" and ps: "ps \<in> set picks"
  show "length ps = 1 \<or> length ps = len"
  proof (cases "length ps = 1")
    case True
    then show ?thesis by simp
  next
    case False
    with ps have mem: "length ps \<in> set (filter (\<lambda>l. l \<noteq> 1) (map length picks))"
      by simp
    obtain l ls where f: "filter (\<lambda>l. l \<noteq> 1) (map length picks) = l # ls"
    proof (cases "filter (\<lambda>l. l \<noteq> 1) (map length picks)")
      case Nil
      from mem have False unfolding Nil by simp
      then show ?thesis ..
    next
      case (Cons l ls)
      then show ?thesis by (rule that)
    qed
    with jl have "list_all (\<lambda>m. m = l) ls" "len = l"
      by (auto simp: joint_length_def split: if_splits)
    moreover from mem have "length ps \<in> set (l # ls)" unfolding f .
    ultimately show ?thesis by (auto simp: list_all_iff)
  qed
qed

lemma choice_in_cart:
  "\<forall>ps\<in>set picks. f ps \<in> set ps \<Longrightarrow> sum_list (map f picks) \<in> set (cart picks)"
  by (induction picks) auto

lemma joint_in_cart:
  assumes "joint_length picks = Inr len"
  shows "set (joint_offsets picks len) \<subseteq> set (cart picks)"
proof
  fix x assume "x \<in> set (joint_offsets picks len)"
  then obtain b where b: "b < len"
    and x: "x = sum_list (map (\<lambda>ps. if length ps = 1 then ps ! 0 else ps ! b) picks)"
    by (auto simp: joint_offsets_def)
  have "\<forall>ps\<in>set picks. (if length ps = 1 then ps ! 0 else ps ! b) \<in> set ps"
    using joint_length_each [OF assms] b by auto
  from choice_in_cart [OF this] x show "x \<in> set (cart picks)" by simp
qed


lemma select_props:
  assumes "select idx dims = Inr (sh, offs)"
  shows "(\<forall>p\<in>set offs. p < prod_list dims) \<and> length offs = prod_list sh \<and>
         (\<not> list_ex is_array idx \<longrightarrow> distinct offs)"
proof -
  from assms obtain axes where axes: "index_axes idx dims = Inr axes"
    by (auto simp: select_def split: sum.splits)
  note bound = index_axes_bound [OF axes]
  show ?thesis
  proof (cases "list_ex is_array idx")
    case False
    with assms axes have sh: "sh = map length (map contribs (filter (\<lambda>ax. \<not> is_pick ax) axes))"
      and offs: "offs = cart (map contribs axes)"
      by (simp_all add: select_def)
    from index_axes_distinct [OF axes False]
    have d: "distinct (cart (map contribs axes))"
      and one: "\<forall>ax\<in>set axes. is_pick ax \<longrightarrow> length (contribs ax) = 1"
      by simp_all
    from prod_length_kept [OF one] have "length offs = prod_list sh"
      by (simp add: sh offs length_cart)
    with bound d offs show ?thesis by simp
  next
    case True
    define picks where "picks = map contribs (filter is_pick axes)"
    define before where "before = map contribs (takeWhile (\<lambda>ax. \<not> is_pick ax) axes)"
    define after where "after = map contribs (filter (\<lambda>ax. \<not> is_pick ax)
                                   (dropWhile (\<lambda>ax. \<not> is_pick ax) axes))"
    from assms axes True obtain len where len: "joint_length picks = Inr len"
      by (auto simp: select_def picks_def split: sum.splits)
    define joint where "joint = joint_offsets picks len"
    define res where "res = (if advanced_consecutive idx then before @ [joint] @ after
                             else joint # before @ after)"
    have "select idx dims = Inr (map length res, cart res)"
      unfolding select_def res_def joint_def after_def before_def
      using axes True len [unfolded picks_def]
      by (simp add: Let_def picks_def)
    with assms have sh: "sh = map length res" and offs: "offs = cart res"
      by simp_all
    have kept: "map contribs (filter (\<lambda>ax. \<not> is_pick ax) axes) = before @ after"
      unfolding before_def after_def map_append [symmetric]
      by (rule arg_cong [OF filter_kept_split])
    have "x < prod_list dims" if x: "x \<in> set (cart res)" for x
    proof -
      from x obtain a j c where a: "a \<in> set (cart before)" and j: "j \<in> set joint"
        and c: "c \<in> set (cart after)" and xs: "x = a + c + j"
      proof (cases "advanced_consecutive idx")
        case True
        with x have "x \<in> set (cart (before @ joint # after))" by (simp add: res_def)
        then obtain a y where "a \<in> set (cart before)" "y \<in> set (cart (joint # after))"
          "x = a + y"
          unfolding set_cart_append by blast
        moreover from this obtain j c where "j \<in> set joint" "c \<in> set (cart after)" "y = j + c"
          unfolding set_cart_Cons by blast
        ultimately show ?thesis by (intro that [of a j c]) simp_all
      next
        case False
        with x have "x \<in> set (cart (joint # before @ after))" by (simp add: res_def)
        then obtain j y where "j \<in> set joint" "y \<in> set (cart (before @ after))" "x = j + y"
          unfolding set_cart_Cons by blast
        moreover from this obtain a c where "a \<in> set (cart before)" "c \<in> set (cart after)"
          "y = a + c"
          unfolding set_cart_append by blast
        ultimately show ?thesis by (intro that [of a j c]) simp_all
      qed
      from a c have "a + c \<in> set (cart (before @ after))"
        unfolding set_cart_append by blast
      moreover from j joint_in_cart [OF len] have "j \<in> set (cart picks)"
        by (auto simp: joint_def)
      moreover have "x \<in> set (cart (map contribs axes)) \<longleftrightarrow>
          (\<exists>a\<in>set (cart (before @ after)). \<exists>b\<in>set (cart picks). x = a + b)"
        using set_cart_partition [of x axes] by (simp only: kept picks_def)
      ultimately have "x \<in> set (cart (map contribs axes))"
        using xs by blast
      with bound show ?thesis by simp
    qed
    with True sh offs show ?thesis by (simp add: length_cart)
  qed
qed

lemma index_positions_props:
  "index_positions dims idx = Inr (sh, offs) \<Longrightarrow>
   (\<forall>p\<in>set offs. p < prod_list dims) \<and> length offs = prod_list sh \<and>
   (\<not> list_ex is_array idx \<longrightarrow> distinct offs)"
  by (auto simp: index_positions_def split: if_splits dest: select_props)

section \<open>Writing to the selected positions\<close>

lemma map2_add_zeros:
  "length xs = n \<Longrightarrow> map2 (+) (replicate n (0::'a::monoid_add)) xs = xs"
  by (induction xs arbitrary: n) auto

lemma add_arrays_zeros:
  "wf_array c \<Longrightarrow> ashape c = s \<Longrightarrow> add_arrays (np_zeros s) c = (c :: ('a::monoid_add) ndarray)"
  by (cases c) (simp add: add_arrays_def np_zeros_def wf_array_def map2_add_zeros)

lemma sum_arrays_two:
  "wf_array c1 \<Longrightarrow> ashape c1 = s \<Longrightarrow> sum_arrays s [c1, c2] = add_arrays c1 c2"
  by (simp add: sum_arrays_def add_arrays_zeros)

lemma strip_leading_ones_short: "length ds \<le> n \<Longrightarrow> strip_leading_ones n ds = ds"
  by (cases ds) simp_all

lemma scatter_Nil [simp]: "scatter [] vs xs = xs" "scatter offs [] xs = xs"
  by (simp_all add: scatter_def)

lemma scatter_Cons [simp]: "scatter (p # offs) (v # vs) xs = scatter offs vs (xs[p := v])"
  by (simp add: scatter_def)

lemma length_scatter [simp]: "length (scatter offs vs xs) = length xs"
proof (induction offs arbitrary: vs xs)
  case Nil
  show ?case by simp
next
  case (Cons p offs)
  then show ?case by (cases vs) simp_all
qed

lemma scatter_map2:
  "length us = length vs \<Longrightarrow>
   scatter offs (map2 f us vs) (map2 f xs ys) = map2 f (scatter offs us xs) (scatter offs vs ys)"
proof (induction offs arbitrary: us vs xs ys)
  case Nil
  show ?case by simp
next
  case (Cons p offs)
  show ?case
  proof (cases us)
    case Nil
    with Cons.prems show ?thesis by simp
  next
    case us: (Cons u us')
    with Cons.prems obtain v vs' where vs: "vs = v # vs'" and len: "length us' = length vs'"
      by (cases vs) auto
    have "(map2 f xs ys)[p := f u v] = map2 f (xs[p := u]) (ys[p := v])"
      by (simp add: zip_update map_update)
    with Cons.IH [OF len, of "xs[p := u]" "ys[p := v]"] us vs show ?thesis
      by simp
  qed
qed

lemma scatter_zeros: "scatter offs (replicate m z) (replicate n z) = replicate n z"
proof (induction offs arbitrary: m)
  case Nil
  show ?case by simp
next
  case (Cons p offs)
  have same: "(replicate n z)[p := z] = replicate n z"
    by (cases "p < n") (auto simp: list_eq_iff_nth_eq nth_list_update)
  show ?case
  proof (cases m)
    case 0
    then show ?thesis by simp
  next
    case (Suc k)
    with Cons.IH [of k] same show ?thesis by simp
  qed
qed

lemma setitem_same_shape:
  assumes "index_positions (ashape a) idx = Inr (sh, offs)"
    and "wf_array v" and "ashape v = sh"
  shows "setitem a idx v = Inr (NDArray (ashape a) (scatter offs (flat v) (flat a)))"
proof -
  have "NDArray sh (flat v) = v"
    using assms(3) by (cases v) simp
  with assms broadcast_to_same [of v] show ?thesis
    by (simp add: setitem_def strip_leading_ones_short)
qed

lemma SliceOperation_setShape_fixpoint:
  assumes "SliceOperation_setShape s = Inr s"
  shows "\<exists>offs. index_positions (shape (inputA s)) (indexExp s) = Inr (shape s, offs)"
proof -
  from assms obtain sh offs
    where sel: "index_positions (shape (inputA s)) (indexExp s) = Inr (sh, offs)"
      and upd: "s\<lparr>shape := sh\<rparr> = s"
    by (auto simp: SliceOperation_setShape_def getitem_def np_zeros_def Let_def
        split: sum.splits prod.splits)
  from upd have "shape (s\<lparr>shape := sh\<rparr>) = shape s"
    by simp
  then have "shape s = sh" by simp
  with sel show ?thesis by blast
qed


lemma wf_add_arrays:
  "wf_array a \<Longrightarrow> wf_array b \<Longrightarrow> ashape b = ashape a \<Longrightarrow> wf_array (add_arrays a b)"
  by (simp add: wf_array_def add_arrays_def)




lemma Slice_gradLoop_sum:
  "list_all2 (\<lambda>out g. getGradient out = Inr g \<and> wf_array g \<and> ashape g = sh) outs gs \<Longrightarrow>
   wf_array acc \<Longrightarrow> ashape acc = sh \<Longrightarrow>
   SliceOperation_gradLoop getGradient outs acc = Inr (foldl add_arrays acc gs) \<and>
   wf_array (foldl add_arrays acc gs) \<and> ashape (foldl add_arrays acc gs) = sh"
proof (induction outs gs arbitrary: acc rule: list_all2_induct)
  case Nil
  then show ?case by simp
next
  case (Cons out outs g gs)
  from Cons.hyps(1) Cons.prems have step: "iadd acc g = Inr (add_arrays acc g)"
    by (simp add: iadd_same_shape)
  from Cons.hyps(1) Cons.prems
  have "wf_array (add_arrays acc g)" "ashape (add_arrays acc g) = sh"
    by (simp_all add: wf_add_arrays)
  from Cons.IH [OF this] Cons.hyps(1) step show ?case by simp
qed

lemma scatter_snoc:
  "length offs = length vs \<Longrightarrow>
   scatter (offs @ [q]) (vs @ [v]) xs = (scatter offs vs xs)[q := v]"
  by (simp add: scatter_def)

lemma filter_upt_snoc:
  "filter (\<lambda>k. (offs @ [q]) ! k = p) [0..<Suc (length offs)]
   = filter (\<lambda>k. offs ! k = p) [0..<length offs] @ (if q = p then [length offs] else [])"
proof -
  have "filter (\<lambda>k. (offs @ [q]) ! k = p) [0..<length offs]
        = filter (\<lambda>k. offs ! k = p) [0..<length offs]"
    by (rule filter_cong) (simp_all add: nth_append)
  then show ?thesis by simp
qed

lemma scatter_nth:
  "length vs = length offs \<Longrightarrow> p < length xs \<Longrightarrow>
   scatter offs vs xs ! p
   = (case filter (\<lambda>k. offs ! k = p) [0..<length offs] of
        [] \<Rightarrow> xs ! p
      | k # ks \<Rightarrow> vs ! last (k # ks))"
proof (induction offs arbitrary: vs rule: rev_induct)
  case Nil
  then show ?case by simp
next
  case (snoc q offs)
  from snoc.prems(1) obtain vs' v where vs: "vs = vs' @ [v]" and len: "length vs' = length offs"
    by (cases vs rule: rev_cases) auto
  note ih = snoc.IH [OF len snoc.prems(2)]
  have sc: "scatter (offs @ [q]) vs xs = (scatter offs vs' xs)[q := v]"
    using len by (simp add: vs scatter_snoc)
  show ?case
  proof (cases "q = p")
    case True
    have "scatter (offs @ [q]) vs xs ! p = (scatter offs vs' xs)[q := v] ! p"
      by (simp only: sc)
    also have "\<dots> = v"
      using True snoc.prems(2) by simp
    finally have "scatter (offs @ [q]) vs xs ! p = v" .
    moreover have "(case filter (\<lambda>k. (offs @ [q]) ! k = p) [0..<length (offs @ [q])] of
                      [] \<Rightarrow> xs ! p | k # ks \<Rightarrow> vs ! last (k # ks)) = v"
    proof -
      have "filter (\<lambda>k. (offs @ [q]) ! k = p) [0..<length (offs @ [q])]
            = filter (\<lambda>k. offs ! k = p) [0..<length offs] @ [length offs]"
        using True filter_upt_snoc [of offs q p] by simp
      moreover have "vs ! length offs = v"
        using len [symmetric] by (simp add: vs)
      ultimately show ?thesis
        by (cases "filter (\<lambda>k. offs ! k = p) [0..<length offs]") simp_all
    qed
    ultimately show ?thesis by simp
  next
    case False
    then have upd: "scatter (offs @ [q]) vs xs ! p = scatter offs vs' xs ! p"
      by (simp add: sc)
    have f: "filter (\<lambda>k. (offs @ [q]) ! k = p) [0..<length (offs @ [q])]
             = filter (\<lambda>k. offs ! k = p) [0..<length offs]"
      using False filter_upt_snoc [of offs q p] by simp
    show ?thesis
    proof (cases "filter (\<lambda>k. offs ! k = p) [0..<length offs]")
      case Nil
      with ih upd f show ?thesis by simp
    next
      case (Cons k ks)
      have "last (k # ks) \<in> set (filter (\<lambda>k. offs ! k = p) [0..<length offs])"
        unfolding Cons by (rule last_in_set) simp
      then have "last (k # ks) < length vs'"
        using len by simp
      then have "vs ! last (k # ks) = vs' ! last (k # ks)"
        by (simp add: vs nth_append)
      with ih upd f Cons show ?thesis by simp
    qed
  qed
qed

lemma scatter_scattered:
  assumes "length (flat g) = length offs"
  shows "NDArray dims (scatter offs (flat g) (replicate (prod_list dims) 0)) = scattered dims offs g"
proof -
  have "scatter offs (flat g) (replicate (prod_list dims) 0)
        = map (\<lambda>p. case filter (\<lambda>k. offs ! k = p) [0..<length offs] of
                      [] \<Rightarrow> 0
                    | k # ks \<Rightarrow> flat g ! last (k # ks))
            [0..<prod_list dims]"
  proof (rule nth_equalityI)
    show "length (scatter offs (flat g) (replicate (prod_list dims) 0))
          = length (map (\<lambda>p. case filter (\<lambda>k. offs ! k = p) [0..<length offs] of
                      [] \<Rightarrow> 0
                    | k # ks \<Rightarrow> flat g ! last (k # ks))
            [0..<prod_list dims])"
      by simp
  next
    fix p assume "p < length (scatter offs (flat g) (replicate (prod_list dims) 0))"
    then have p: "p < prod_list dims" by simp
    then have "p < length (replicate (prod_list dims) (0::'a))" by simp
    from scatter_nth [OF assms this] p
    show "scatter offs (flat g) (replicate (prod_list dims) 0) ! p
          = map (\<lambda>p. case filter (\<lambda>k. offs ! k = p) [0..<length offs] of
                      [] \<Rightarrow> 0
                    | k # ks \<Rightarrow> flat g ! last (k # ks))
            [0..<prod_list dims] ! p"
      by (simp split: list.splits)
  qed
  then show ?thesis by (simp add: scattered_def)
qed



section \<open>Summation over consumers\<close>

lemma Reshape_performGradient_eq:
  "ReshapeFeaturesOperation_performGradient getGradient r
   = FlattenFeaturesOperation_performGradient getGradient r"
  by (simp add: FlattenFeaturesOperation_performGradient_def
        ReshapeFeaturesOperation_performGradient_def Reshape_gradLoop_eq)

lemma Flatten_performGradient_explicit:
  assumes "\<not> endNode f"
    and "list_all2 (\<lambda>out g. getGradient out = Inr g \<and>
                     length (flat g) = prod_list (shape (inputA f))) (outputs f) gs"
  shows "FlattenFeaturesOperation_performGradient getGradient f
         = Inr (sum_arrays (shape (inputA f)) (map (\<lambda>g. NDArray (shape (inputA f)) (flat g)) gs))"
proof -
  from assms(2)
  have "list_all2 (\<lambda>out g. \<exists>g'. getGradient out = Inr g' \<and>
            reshape g' (shape (inputA f)) = Inr (NDArray (shape (inputA f)) (flat g)))
          (outputs f) gs"
    by (rule list_all2_mono) (auto simp: reshape_def)
  then have "list_all2 (\<lambda>out c. \<exists>g'. getGradient out = Inr g' \<and>
            reshape g' (shape (inputA f)) = Inr c)
          (outputs f) (map (\<lambda>g. NDArray (shape (inputA f)) (flat g)) gs)"
    by (simp add: list_all2_map2)
  with assms(1) show ?thesis by (rule Flatten_performGradient_sum)
qed

lemma scatter_foldl_add:
  "\<forall>g\<in>set gs. length (flat g) = length (flat acc) \<Longrightarrow>
   NDArray dims (scatter offs (flat (foldl add_arrays acc gs)) (replicate n (0::'a::monoid_add)))
   = foldl add_arrays (NDArray dims (scatter offs (flat acc) (replicate n 0)))
       (map (\<lambda>g. NDArray dims (scatter offs (flat g) (replicate n 0))) gs)"
proof (induction gs arbitrary: acc)
  case Nil
  show ?case by simp
next
  case (Cons g gs)
  from Cons.prems have len: "length (flat acc) = length (flat g)" by simp
  have z: "map2 (+) (replicate n (0::'a)) (replicate n 0) = replicate n 0"
    by (simp add: map2_add_zeros)
  from scatter_map2 [OF len, of offs "(+)" "replicate n 0" "replicate n 0"]
  have "scatter offs (flat (add_arrays acc g)) (replicate n 0)
        = map2 (+) (scatter offs (flat acc) (replicate n 0)) (scatter offs (flat g) (replicate n 0))"
    by (simp add: add_arrays_def z)
  then have step: "NDArray dims (scatter offs (flat (add_arrays acc g)) (replicate n 0))
        = add_arrays (NDArray dims (scatter offs (flat acc) (replicate n 0)))
            (NDArray dims (scatter offs (flat g) (replicate n 0)))"
    by (simp add: add_arrays_def)
  from Cons.prems len have "\<forall>g'\<in>set gs. length (flat g') = length (flat (add_arrays acc g))"
    by (simp add: add_arrays_def)
  from Cons.IH [OF this] step show ?case by simp
qed

lemma Slice_performGradient_explicit:
  assumes sel: "index_positions (shape (inputA s)) (indexExp s) = Inr (shape s, offs)"
    and ne: "\<not> endNode s"
    and gs: "list_all2 (\<lambda>out g. getGradient out = Inr g \<and> wf_array g \<and> ashape g = shape s)
               (outputs s) gs"
  shows "SliceOperation_performGradient getGradient s
         = Inr (NDArray (shape (inputA s))
                  (scatter offs (flat (sum_arrays (shape s) gs))
                     (replicate (prod_list (shape (inputA s))) 0)))"
    and "SliceOperation_performGradient getGradient s
         = Inr (sum_arrays (shape (inputA s)) (map (scattered (shape (inputA s)) offs) gs))"
proof -
  let ?Z = "replicate (prod_list (shape (inputA s))) (0::'a)"
  let ?G = "sum_arrays (shape s) gs"
  from index_positions_props [OF sel] have len: "length offs = prod_list (shape s)"
    by simp
  have z: "wf_array (np_zeros (shape s) :: 'a ndarray)"
    "ashape (np_zeros (shape s) :: 'a ndarray) = shape s"
    by (simp_all add: wf_array_def np_zeros_def)
  from Slice_gradLoop_sum [OF gs z]
  have loop: "SliceOperation_gradLoop getGradient (outputs s) (np_zeros (shape s)) = Inr ?G"
    and G: "wf_array ?G" "ashape ?G = shape s"
    by (simp_all add: sum_arrays_def)
  from sel have "index_positions (ashape (np_zeros (shape (inputA s)) :: 'a ndarray)) (indexExp s)
                 = Inr (shape s, offs)"
    by (simp add: np_zeros_def)
  from setitem_same_shape [OF this G]
  have "setitem (np_zeros (shape (inputA s))) (indexExp s) ?G
        = Inr (NDArray (shape (inputA s)) (scatter offs (flat ?G) ?Z))"
    by (simp add: np_zeros_def)
  with loop ne
  show res: "SliceOperation_performGradient getGradient s
             = Inr (NDArray (shape (inputA s)) (scatter offs (flat ?G) ?Z))"
    by (simp add: SliceOperation_performGradient_def)
  have each: "\<forall>g\<in>set gs. wf_array g \<and> ashape g = shape s"
    using gs by (auto simp: list_all2_conv_all_nth in_set_conv_nth)
  then have "\<forall>g\<in>set gs. length (flat g) = length (flat (np_zeros (shape s) :: 'a ndarray))"
    by (simp add: wf_array_def np_zeros_def)
  from scatter_foldl_add [OF this, of "shape (inputA s)" offs "prod_list (shape (inputA s))"]
  have "NDArray (shape (inputA s)) (scatter offs (flat ?G) ?Z)
        = foldl add_arrays (NDArray (shape (inputA s)) ?Z)
            (map (\<lambda>g. NDArray (shape (inputA s)) (scatter offs (flat g) ?Z)) gs)"
    by (simp add: sum_arrays_def np_zeros_def scatter_zeros)
  moreover have "map (\<lambda>g. NDArray (shape (inputA s)) (scatter offs (flat g) ?Z)) gs
                 = map (scattered (shape (inputA s)) offs) gs"
  proof (rule map_cong [OF refl])
    fix g assume "g \<in> set gs"
    with each len have "length (flat g) = length offs"
      by (simp add: wf_array_def)
    then show "NDArray (shape (inputA s)) (scatter offs (flat g) ?Z)
               = scattered (shape (inputA s)) offs g"
      by (rule scatter_scattered)
  qed
  ultimately show "SliceOperation_performGradient getGradient s
         = Inr (sum_arrays (shape (inputA s)) (map (scattered (shape (inputA s)) offs) gs))"
    using res by (simp add: sum_arrays_def np_zeros_def)
qed


lemma sum_arrays_one: "wf_array c \<Longrightarrow> ashape c = s \<Longrightarrow> sum_arrays s [c] = c"
  by (simp add: sum_arrays_def add_arrays_zeros)

lemma Flatten_two_consumers:
  assumes "\<not> endNode f"
    and "getGradient o1 = Inr g1" and "getGradient o2 = Inr g2"
    and "length (flat g1) = prod_list (shape (inputA f))"
    and "length (flat g2) = prod_list (shape (inputA f))"
  shows "FlattenFeaturesOperation_performGradient getGradient (f\<lparr>outputs := [o1]\<rparr>)
           = Inr (NDArray (shape (inputA f)) (flat g1)) \<and>
         FlattenFeaturesOperation_performGradient getGradient (f\<lparr>outputs := [o2]\<rparr>)
           = Inr (NDArray (shape (inputA f)) (flat g2)) \<and>
         FlattenFeaturesOperation_performGradient getGradient (f\<lparr>outputs := [o1, o2]\<rparr>)
           = Inr (NDArray (shape (inputA f)) (map2 (+) (flat g1) (flat g2)))"
proof -
  have wf: "wf_array (NDArray (shape (inputA f)) (flat g1))"
    "wf_array (NDArray (shape (inputA f)) (flat g2))"
    using assms(4,5) by (simp_all add: wf_array_def)
  from Flatten_performGradient_explicit [of "f\<lparr>outputs := [o1]\<rparr>" getGradient "[g1]"] assms wf
  have 1: "FlattenFeaturesOperation_performGradient getGradient (f\<lparr>outputs := [o1]\<rparr>)
           = Inr (NDArray (shape (inputA f)) (flat g1))"
    by (simp add: sum_arrays_one)
  from Flatten_performGradient_explicit [of "f\<lparr>outputs := [o2]\<rparr>" getGradient "[g2]"] assms wf
  have 2: "FlattenFeaturesOperation_performGradient getGradient (f\<lparr>outputs := [o2]\<rparr>)
           = Inr (NDArray (shape (inputA f)) (flat g2))"
    by (simp add: sum_arrays_one)
  from Flatten_performGradient_explicit [of "f\<lparr>outputs := [o1, o2]\<rparr>" getGradient "[g1, g2]"]
    assms wf
  have "FlattenFeaturesOperation_performGradient getGradient (f\<lparr>outputs := [o1, o2]\<rparr>)
           = Inr (add_arrays (NDArray (shape (inputA f)) (flat g1))
                             (NDArray (shape (inputA f)) (flat g2)))"
    by (simp add: sum_arrays_two)
  with 1 2 show ?thesis by (simp add: add_arrays_def)
qed

lemma wf_scattered [simp]:
  "wf_array (scattered dims offs g)" "ashape (scattered dims offs g) = dims"
  by (simp_all add: scattered_def wf_array_def)

lemma Slice_two_consumers:
  assumes sel: "index_positions (shape (inputA s)) (indexExp s) = Inr (shape s, offs)"
    and ne: "\<not> endNode s"
    and g: "getGradient o1 = Inr g1" "getGradient o2 = Inr g2"
      "wf_array g1" "wf_array g2" "ashape g1 = shape s" "ashape g2 = shape s"
  shows "SliceOperation_performGradient getGradient (s\<lparr>outputs := [o1]\<rparr>)
           = Inr (scattered (shape (inputA s)) offs g1) \<and>
         SliceOperation_performGradient getGradient (s\<lparr>outputs := [o2]\<rparr>)
           = Inr (scattered (shape (inputA s)) offs g2) \<and>
         SliceOperation_performGradient getGradient (s\<lparr>outputs := [o1, o2]\<rparr>)
           = Inr (add_arrays (scattered (shape (inputA s)) offs g1)
                             (scattered (shape (inputA s)) offs g2))"
proof -
  from Slice_performGradient_explicit(2) [of "s\<lparr>outputs := [o1]\<rparr>" offs getGradient "[g1]"]
    sel ne g
  have 1: "SliceOperation_performGradient getGradient (s\<lparr>outputs := [o1]\<rparr>)
           = Inr (scattered (shape (inputA s)) offs g1)"
    by (simp add: sum_arrays_one)
  from Slice_performGradient_explicit(2) [of "s\<lparr>outputs := [o2]\<rparr>" offs getGradient "[g2]"]
    sel ne g
  have 2: "SliceOperation_performGradient getGradient (s\<lparr>outputs := [o2]\<rparr>)
           = Inr (scattered (shape (inputA s)) offs g2)"
    by (simp add: sum_arrays_one)
  from Slice_performGradient_explicit(2)
    [of "s\<lparr>outputs := [o1, o2]\<rparr>" offs getGradient "[g1, g2]"] sel ne g
  have "SliceOperation_performGradient getGradient (s\<lparr>outputs := [o1, o2]\<rparr>)
           = Inr (add_arrays (scattered (shape (inputA s)) offs g1)
                             (scattered (shape (inputA s)) offs g2))"
    by (simp add: sum_arrays_two)
  with 1 2 show ?thesis by simp
qed

text \<open>
  C2. For a transformation operation (Flatten, Reshape, Slice) that is not an end node,
  with any list of consumers, the gradient \<open>performGradient\<close> computes is the elementwise
  sum of the consumers' contributions, the contribution of a consumer being what its
  \<open>getGradient\<close> answers, reshaped to the input's shape (Flatten, Reshape: the same
  elements under the input's shape) or scattered to it (Slice: zeros, with the elements
  at the positions the index expression selects). With two consumers the gradient
  computed for each consumer alone is its contribution, and the gradient computed for
  both is the elementwise sum of the two. (For Slice the node's shape is the one
  \<open>setShape\<close> assigns and the consumers answer arrays of that shape.)
\<close>

theorem performGradient_fan_out_sum:
  assumes "\<not> endNode f" and "\<not> endNode r" and "\<not> endNode s"
    and "SliceOperation_setShape s = Inr s"
  shows
    "(list_all2 (\<lambda>out g. getGradient out = Inr g \<and>
                   length (flat g) = prod_list (shape (inputA f))) (outputs f) gs \<longrightarrow>
        FlattenFeaturesOperation_performGradient getGradient f
          = Inr (sum_arrays (shape (inputA f))
                   (map (\<lambda>g. NDArray (shape (inputA f)) (flat g)) gs))) \<and>
     (list_all2 (\<lambda>out g. getGradient out = Inr g \<and>
                   length (flat g) = prod_list (shape (inputA r))) (outputs r) gs \<longrightarrow>
        ReshapeFeaturesOperation_performGradient getGradient r
          = Inr (sum_arrays (shape (inputA r))
                   (map (\<lambda>g. NDArray (shape (inputA r)) (flat g)) gs))) \<and>
     (list_all2 (\<lambda>out g. getGradient out = Inr g \<and> wf_array g \<and> ashape g = shape s)
        (outputs s) gs \<longrightarrow>
        SliceOperation_performGradient getGradient s
          = Inr (sum_arrays (shape (inputA s))
                   (map (scattered (shape (inputA s))
                           (selected_positions (shape (inputA s)) (indexExp s))) gs))) \<and>
     (getGradient o1 = Inr g1 \<and> getGradient o2 = Inr g2 \<and>
      length (flat g1) = prod_list (shape (inputA f)) \<and>
      length (flat g2) = prod_list (shape (inputA f)) \<longrightarrow>
        FlattenFeaturesOperation_performGradient getGradient (f\<lparr>outputs := [o1]\<rparr>)
          = Inr (NDArray (shape (inputA f)) (flat g1)) \<and>
        FlattenFeaturesOperation_performGradient getGradient (f\<lparr>outputs := [o2]\<rparr>)
          = Inr (NDArray (shape (inputA f)) (flat g2)) \<and>
        FlattenFeaturesOperation_performGradient getGradient (f\<lparr>outputs := [o1, o2]\<rparr>)
          = Inr (NDArray (shape (inputA f)) (map2 (+) (flat g1) (flat g2)))) \<and>
     (getGradient o1 = Inr g1 \<and> getGradient o2 = Inr g2 \<and>
      length (flat g1) = prod_list (shape (inputA r)) \<and>
      length (flat g2) = prod_list (shape (inputA r)) \<longrightarrow>
        ReshapeFeaturesOperation_performGradient getGradient (r\<lparr>outputs := [o1]\<rparr>)
          = Inr (NDArray (shape (inputA r)) (flat g1)) \<and>
        ReshapeFeaturesOperation_performGradient getGradient (r\<lparr>outputs := [o2]\<rparr>)
          = Inr (NDArray (shape (inputA r)) (flat g2)) \<and>
        ReshapeFeaturesOperation_performGradient getGradient (r\<lparr>outputs := [o1, o2]\<rparr>)
          = Inr (NDArray (shape (inputA r)) (map2 (+) (flat g1) (flat g2)))) \<and>
     (getGradient o1 = Inr g1 \<and> getGradient o2 = Inr g2 \<and>
      wf_array g1 \<and> wf_array g2 \<and> ashape g1 = shape s \<and> ashape g2 = shape s \<longrightarrow>
        SliceOperation_performGradient getGradient (s\<lparr>outputs := [o1]\<rparr>)
          = Inr (scattered (shape (inputA s))
                   (selected_positions (shape (inputA s)) (indexExp s)) g1) \<and>
        SliceOperation_performGradient getGradient (s\<lparr>outputs := [o2]\<rparr>)
          = Inr (scattered (shape (inputA s))
                   (selected_positions (shape (inputA s)) (indexExp s)) g2) \<and>
        SliceOperation_performGradient getGradient (s\<lparr>outputs := [o1, o2]\<rparr>)
          = Inr (add_arrays
                   (scattered (shape (inputA s))
                      (selected_positions (shape (inputA s)) (indexExp s)) g1)
                   (scattered (shape (inputA s))
                      (selected_positions (shape (inputA s)) (indexExp s)) g2)))"
proof -
  from SliceOperation_setShape_fixpoint [OF assms(4)] obtain offs
    where sel: "index_positions (shape (inputA s)) (indexExp s) = Inr (shape s, offs)"
    by blast
  then have sp: "selected_positions (shape (inputA s)) (indexExp s) = offs"
    by (simp add: selected_positions_def)
  have c1: "list_all2 (\<lambda>out g. getGradient out = Inr g \<and>
                   length (flat g) = prod_list (shape (inputA f))) (outputs f) gs \<longrightarrow>
        FlattenFeaturesOperation_performGradient getGradient f
          = Inr (sum_arrays (shape (inputA f))
                   (map (\<lambda>g. NDArray (shape (inputA f)) (flat g)) gs))"
    using Flatten_performGradient_explicit [OF assms(1)] by blast
  have c2: "list_all2 (\<lambda>out g. getGradient out = Inr g \<and>
                   length (flat g) = prod_list (shape (inputA r))) (outputs r) gs \<longrightarrow>
        ReshapeFeaturesOperation_performGradient getGradient r
          = Inr (sum_arrays (shape (inputA r))
                   (map (\<lambda>g. NDArray (shape (inputA r)) (flat g)) gs))"
    unfolding Reshape_performGradient_eq
    using Flatten_performGradient_explicit [OF assms(2)] by blast
  have c3: "list_all2 (\<lambda>out g. getGradient out = Inr g \<and> wf_array g \<and> ashape g = shape s)
        (outputs s) gs \<longrightarrow>
        SliceOperation_performGradient getGradient s
          = Inr (sum_arrays (shape (inputA s)) (map (scattered (shape (inputA s)) offs) gs))"
    using Slice_performGradient_explicit(2) [OF sel assms(3)] by blast
  have c4: "getGradient o1 = Inr g1 \<and> getGradient o2 = Inr g2 \<and>
      length (flat g1) = prod_list (shape (inputA f)) \<and>
      length (flat g2) = prod_list (shape (inputA f)) \<longrightarrow>
        FlattenFeaturesOperation_performGradient getGradient (f\<lparr>outputs := [o1]\<rparr>)
          = Inr (NDArray (shape (inputA f)) (flat g1)) \<and>
        FlattenFeaturesOperation_performGradient getGradient (f\<lparr>outputs := [o2]\<rparr>)
          = Inr (NDArray (shape (inputA f)) (flat g2)) \<and>
        FlattenFeaturesOperation_performGradient getGradient (f\<lparr>outputs := [o1, o2]\<rparr>)
          = Inr (NDArray (shape (inputA f)) (map2 (+) (flat g1) (flat g2)))"
    using Flatten_two_consumers [OF assms(1), of getGradient o1 g1 o2 g2] by blast
  have c5: "getGradient o1 = Inr g1 \<and> getGradient o2 = Inr g2 \<and>
      length (flat g1) = prod_list (shape (inputA r)) \<and>
      length (flat g2) = prod_list (shape (inputA r)) \<longrightarrow>
        ReshapeFeaturesOperation_performGradient getGradient (r\<lparr>outputs := [o1]\<rparr>)
          = Inr (NDArray (shape (inputA r)) (flat g1)) \<and>
        ReshapeFeaturesOperation_performGradient getGradient (r\<lparr>outputs := [o2]\<rparr>)
          = Inr (NDArray (shape (inputA r)) (flat g2)) \<and>
        ReshapeFeaturesOperation_performGradient getGradient (r\<lparr>outputs := [o1, o2]\<rparr>)
          = Inr (NDArray (shape (inputA r)) (map2 (+) (flat g1) (flat g2)))"
    unfolding Reshape_performGradient_eq
    using Flatten_two_consumers [OF assms(2), of getGradient o1 g1 o2 g2] by blast
  have c6: "getGradient o1 = Inr g1 \<and> getGradient o2 = Inr g2 \<and>
      wf_array g1 \<and> wf_array g2 \<and> ashape g1 = shape s \<and> ashape g2 = shape s \<longrightarrow>
        SliceOperation_performGradient getGradient (s\<lparr>outputs := [o1]\<rparr>)
          = Inr (scattered (shape (inputA s)) offs g1) \<and>
        SliceOperation_performGradient getGradient (s\<lparr>outputs := [o2]\<rparr>)
          = Inr (scattered (shape (inputA s)) offs g2) \<and>
        SliceOperation_performGradient getGradient (s\<lparr>outputs := [o1, o2]\<rparr>)
          = Inr (add_arrays (scattered (shape (inputA s)) offs g1)
                            (scattered (shape (inputA s)) offs g2))"
    using Slice_two_consumers [OF sel assms(3), of getGradient o1 g1 o2 g2] by blast
  show ?thesis
    unfolding sp by (intro conjI c1 c2 c3 c4 c5 c6)
qed


theorem performGradient_fan_out_sum_witness:
  "FlattenFeaturesOperation_performGradient
     (\<lambda>c::nat. if c = 0 then Inr (NDArray [2, 2] [1, 2, 3, 4 :: int])
                else Inr (NDArray [2, 2] [10, 20, 30, 40]))
     \<lparr>shape = [1, 4], result = None, inputA = \<lparr>shape = [4], result = None\<rparr>,
      endNode = False, outputs = [0, 1], nExamples = 1\<rparr>
   = Inr (NDArray [4] [11, 22, 33, 44]) \<and>
   ReshapeFeaturesOperation_performGradient
     (\<lambda>c::nat. if c = 0 then Inr (NDArray [2, 2] [1, 2, 3, 4 :: int])
                else Inr (NDArray [2, 2] [10, 20, 30, 40]))
     \<lparr>shape = [1, 2, 2], result = None, inputA = \<lparr>shape = [1, 4], result = None\<rparr>,
      endNode = False, outputs = [0, 1], nExamples = 1, exampleShape = PyTuple [2, 2]\<rparr>
   = Inr (NDArray [1, 4] [11, 22, 33, 44]) \<and>
   SliceOperation_performGradient
     (\<lambda>c::nat. if c = 0 then Inr (NDArray [2, 2] [1, 2, 3, 4 :: int])
                else Inr (NDArray [2, 2] [10, 20, 30, 40]))
     \<lparr>shape = [2, 2], result = None, inputA = \<lparr>shape = [2, 2], result = None\<rparr>,
      endNode = False, outputs = [0, 1], indexExp = [IntArray [0, 0], Slice None None None]\<rparr>
   = Inr (NDArray [2, 2] [33, 44, 0, 0])"
proof -
  let ?gG = "\<lambda>c::nat. if c = 0 then Inr (NDArray [2, 2] [1, 2, 3, 4 :: int])
                else Inr (NDArray [2, 2] [10, 20, 30, 40]) :: py_error + int ndarray"
  let ?f = "\<lparr>shape = [1, 4], result = None, inputA = \<lparr>shape = [4], result = None\<rparr>,
      endNode = False, outputs = [0, 1], nExamples = 1\<rparr> :: (int, nat) features_operation"
  let ?r = "\<lparr>shape = [1, 2, 2], result = None, inputA = \<lparr>shape = [1, 4], result = None\<rparr>,
      endNode = False, outputs = [0, 1], nExamples = 1, exampleShape = PyTuple [2, 2]\<rparr>
      :: (int, nat) ReshapeFeaturesOperation"
  let ?s = "\<lparr>shape = [2, 2], result = None, inputA = \<lparr>shape = [2, 2], result = None\<rparr>,
      endNode = False, outputs = [0, 1], indexExp = [IntArray [0, 0], Slice None None None]\<rparr>
      :: (int, nat) SliceOperation"
  let ?gs = "[NDArray [2, 2] [1, 2, 3, 4 :: int], NDArray [2, 2] [10, 20, 30, 40]]"
  have ne: "\<not> endNode ?f" "\<not> endNode ?r" "\<not> endNode ?s"
    by simp_all
  have sel: "index_positions [2, 2] [IntArray [0, 0], Slice None None None]
             = Inr ([2, 2], [0, 1, 0, 1])"
    by code_simp
  have fp: "SliceOperation_setShape ?s = Inr ?s"
    by (simp add: SliceOperation_setShape_def getitem_def np_zeros_def sel)
  note t = performGradient_fan_out_sum [OF ne fp, of ?gG ?gs]
  have f: "list_all2 (\<lambda>out g. ?gG out = Inr g \<and> length (flat g) = prod_list (shape (inputA ?f)))
             (outputs ?f) ?gs"
    by simp
  have r: "list_all2 (\<lambda>out g. ?gG out = Inr g \<and> length (flat g) = prod_list (shape (inputA ?r)))
             (outputs ?r) ?gs"
    by simp
  have s: "list_all2 (\<lambda>out g. ?gG out = Inr g \<and> wf_array g \<and> ashape g = shape ?s)
             (outputs ?s) ?gs"
    by (simp add: wf_array_def)
  have ef: "sum_arrays [4] (map (\<lambda>g. NDArray [4] (flat g)) ?gs) = NDArray [4] [11, 22, 33, 44]"
    by code_simp
  have er: "sum_arrays [1, 4] (map (\<lambda>g. NDArray [1, 4] (flat g)) ?gs)
            = NDArray [1, 4] [11, 22, 33, 44]"
    by code_simp
  have es: "sum_arrays [2, 2]
              (map (scattered [2, 2]
                 (selected_positions [2, 2] [IntArray [0, 0], Slice None None None])) ?gs)
            = NDArray [2, 2] [33, 44, 0, 0]"
    by code_simp
  from t f ef have "FlattenFeaturesOperation_performGradient ?gG ?f
                    = Inr (NDArray [4] [11, 22, 33, 44])"
    by simp
  moreover from t r er have "ReshapeFeaturesOperation_performGradient ?gG ?r
                    = Inr (NDArray [1, 4] [11, 22, 33, 44])"
    by simp
  moreover from t s es have "SliceOperation_performGradient ?gG ?s
                    = Inr (NDArray [2, 2] [33, 44, 0, 0])"
    by simp
  ultimately show ?thesis by simp
qed


section \<open>The gradient of a slice is scattered to the selected positions\<close>



end
